theory Spec2Isabelle
  imports Main "HOL-Library.Word"
begin

unbundle bit_operations_syntax

section \<open>Block operations of the beacon chain (package blocks)\<close>

text \<open>
  A shallow embedding of the per-block operation processors of
  \<^verbatim>\<open>beacon-chain/core/blocks/block_operations.go\<close>: ProcessEth1Data,
  ProcessBlockRandao, ProcessProposerSlashings, ProcessAttesterSlashings,
  ProcessBlockAttestations and ProcessValidatorExits, with the verification
  functions they call. Go's \<^verbatim>\<open>uint64\<close> is a 64-bit word (addition wraps,
  comparison is unsigned), \<^verbatim>\<open>[]byte\<close> is a list of bytes. Where a slice is
  only compared with \<^verbatim>\<open>bytes.Equal\<close> or \<^verbatim>\<open>proto.Equal\<close>, which take a nil
  slice and an empty one for the same, both are the empty list. The hashes of
  an AttestationData are also compared with \<^verbatim>\<open>reflect.DeepEqual\<close>, which
  tells a nil slice from an empty one: there a slice is an optional list,
  \<open>None\<close> for nil.
\<close>

type_synonym u64 = "64 word"
type_synonym bytes = "8 word list"

text \<open>The bytes of a slice that may be nil, as \<^verbatim>\<open>bytes.Equal\<close> and every other
  reader but \<^verbatim>\<open>reflect.DeepEqual\<close> see them.\<close>

definition bytesOf :: "bytes option \<Rightarrow> bytes" where
  "bytesOf s = (case s of None \<Rightarrow> [] | Some b \<Rightarrow> b)"

subsection \<open>Errors\<close>

text \<open>
  Every \<^verbatim>\<open>fmt.Errorf\<close> and \<^verbatim>\<open>errors.New\<close> of the source is a constructor;
  a constructor with an \<open>error\<close> argument wraps the error of the callee, as the
  \<^verbatim>\<open>%v\<close> of the format string does, and a \<open>nat\<close> argument is the index of
  the item named in the message. \<open>Panic\<close> is a Go runtime panic (index out of
  range, integer division by zero): it is no error value of the program, and
  it unwinds through every caller unwrapped. \<open>External\<close> is an error made by a
  helper that lives outside this file.
\<close>

datatype error =
    Panic
  | External string
  | CouldNotFetchProposerIndex error
  | CouldNotVerifyBlockRandao error
  | RandaoLayersMismatch
  | ProposerSlashingsExceedThreshold
  | CouldNotVerifyProposerSlashing nat error
  | CouldNotPenalizeProposer u64 error
  | ProposalSlotsDoNotMatch
  | ProposalShardsDoNotMatch
  | ProposalBlockRootsDoNotMatch
  | AttesterSlashingsExceedThreshold
  | CouldNotVerifyAttesterSlashing nat error
  | CouldNotDetermineIndicesToSlash error
  | CouldNotPenalizeValidator u64 error
  | SlashableVoteDataShouldNotMatch
  | NotDoubleNorSurroundVote
  | CouldNotVerifySlashableAttestation1 error
  | CouldNotVerifySlashableAttestation2 error
  | EmptySlashableIndices
  | CustodyBitfieldAllZero
  | EmptyValidatorIndices
  | ValidatorIndicesNotOrdered
  | CustodyBitfieldLengthMismatch
  | ValidatorIndicesExceedMax
  | AttestationsExceedThreshold
  | CouldNotVerifyAttestation nat error
  | AttestationSlotTooRecent
  | AttestationSlotTooOld
  | JustifiedEpochMismatch
  | PreviousJustifiedEpochMismatch
  | CouldNotGetBlockRoot error
  | JustifiedBlockRootMismatch
  | CrosslinkRootMismatch
  | ShardBlockRootNotEmpty
  | ExitsExceedThreshold
  | CouldNotVerifyExit nat error
  | ExitEpochNotAfterEffectEpoch
  | ExitEpochInFuture

text \<open>\<^verbatim>\<open>fmt.Errorf("...: %v", err)\<close> around the error of a callee; a panic of the
  callee is not caught.\<close>

definition wrap :: "(error \<Rightarrow> error) \<Rightarrow> error \<Rightarrow> error" where
  "wrap f e = (if e = Panic then Panic else f e)"

subsection \<open>Protocol buffer messages\<close>

text \<open>
  The messages of \<^verbatim>\<open>proto/beacon/p2p/v1\<close>, with the fields this file reads or
  writes. Where two messages have a field of the same name the record field
  carries a short prefix of its message (\<open>ad_\<close> AttestationData, \<open>att_\<close>
  Attestation, \<open>pa_\<close> PendingAttestationRecord, \<open>sa_\<close> SlashableAttestation,
  \<open>pd_\<close> ProposalSignedData, \<open>exit_\<close> Exit, \<open>cl_\<close> CrosslinkRecord, \<open>vote_\<close>
  Eth1DataVote, \<open>blk_\<close> BeaconBlock). Signatures are left out: every BLS check of
  the file is a TODO that returns nil.
\<close>

record Eth1Data =
  DepositRootHash32 :: bytes
  BlockHash32 :: bytes

record Eth1DataVote =
  vote_Eth1Data :: Eth1Data
  VoteCount :: u64

record Validator =
  Pubkey :: bytes
  WithdrawalCredentialsHash32 :: bytes
  RandaoCommitmentHash32 :: bytes
  RandaoLayers :: u64
  ExitEpoch :: u64
  PenalizedEpoch :: u64

record CrosslinkRecord =
  cl_ShardBlockRootHash32 :: bytes

record AttestationData =
  ad_Slot :: u64
  ad_Shard :: u64
  ad_JustifiedEpoch :: u64
  ad_JustifiedBlockRootHash32 :: "bytes option"
  ad_LatestCrosslinkRootHash32 :: "bytes option"
  ad_ShardBlockRootHash32 :: "bytes option"

record Attestation =
  att_Data :: AttestationData
  att_AggregationBitfield :: bytes
  att_CustodyBitfield :: bytes

record PendingAttestationRecord =
  pa_Data :: AttestationData
  pa_AggregationBitfield :: bytes
  pa_CustodyBitfield :: bytes
  pa_SlotIncluded :: u64

record SlashableAttestation =
  sa_ValidatorIndices :: "u64 list"
  sa_CustodyBitfield :: bytes
  sa_Data :: AttestationData

record AttesterSlashing =
  SlashableAttestation_1 :: SlashableAttestation
  SlashableAttestation_2 :: SlashableAttestation

record ProposalSignedData =
  pd_Slot :: u64
  pd_Shard :: u64
  pd_BlockRootHash32 :: bytes

record ProposerSlashing =
  ProposerIndex :: u64
  ProposalData_1 :: ProposalSignedData
  ProposalData_2 :: ProposalSignedData

record Exit =
  exit_Epoch :: u64
  exit_ValidatorIndex :: u64

record BeaconBlockBody =
  ProposerSlashings :: "ProposerSlashing list"
  AttesterSlashings :: "AttesterSlashing list"
  Attestations :: "Attestation list"
  Exits :: "Exit list"

record BeaconBlock =
  blk_Eth1Data :: Eth1Data
  RandaoRevealHash32 :: bytes
  Body :: BeaconBlockBody

subsection \<open>The beacon state and the store of validators\<close>

text \<open>
  \<^verbatim>\<open>ValidatorRegistry\<close> is a \<^verbatim>\<open>[]*pb.Validator\<close>: a slice header (pointer,
  length, capacity) over an array of pointers to validator objects.
  ProcessProposerSlashings and ProcessValidatorExits copy the header into a
  local variable before their loop and call helpers that receive the state
  pointer, so what they do depends on what is shared. The store makes that
  explicit: \<open>cells\<close> is the memory that holds the elements of such arrays (a
  cell holds the address of a validator object), \<open>objs\<close> maps an address to the
  validator stored there, and the state holds the slice header of its
  registry: the address of its first cell, its length and its capacity. Every
  address holds an object: a decoded state has no nil entries, and no two
  entries of one message share an object. The other fields of the state are
  not shared with a local variable across a call and are held by value.
\<close>

record store =
  cells :: "nat \<Rightarrow> nat"
  objs :: "nat \<Rightarrow> Validator"

record sliceHeader =
  sl_ptr :: nat
  sl_len :: nat
  sl_cap :: nat

record BeaconState =
  Slot :: u64
  Eth1DataVotes :: "Eth1DataVote list"
  ValidatorRegistry :: sliceHeader
  LatestRandaoMixesHash32S :: "bytes list"
  LatestBlockRootHash32S :: "bytes list"
  LatestCrosslinks :: "CrosslinkRecord list"
  LatestAttestations :: "PendingAttestationRecord list"
  JustifiedEpoch :: u64
  PreviousJustifiedEpoch :: u64

type_synonym world = "BeaconState \<times> store"

text \<open>\<^verbatim>\<open>registry[i]\<close> for a slice header \<open>r\<close>: the address in the cell at index
  \<open>i\<close>, or \<open>None\<close> where Go panics with index out of range (the index is not
  below the length of the slice).\<close>

definition sliceIndex :: "store \<Rightarrow> sliceHeader \<Rightarrow> u64 \<Rightarrow> nat option" where
  "sliceIndex h r i =
     (if unat i < sl_len r then Some (cells h (sl_ptr r + unat i)) else None)"

subsection \<open>ProcessEth1Data\<close>

text \<open>
  The loop over \<^verbatim>\<open>beaconState.Eth1DataVotes\<close>: at the first vote whose Eth1Data
  equals the block's (\<^verbatim>\<open>proto.Equal\<close>, structural equality of the messages)
  the count is incremented and the loop breaks. The result is the list after
  the loop and the flag \<^verbatim>\<open>eth1DataVoteAdded\<close>.
\<close>

fun eth1DataVotesLoop :: "Eth1DataVote list \<Rightarrow> Eth1Data \<Rightarrow> Eth1DataVote list \<times> bool" where
  "eth1DataVotesLoop [] d = ([], False)"
| "eth1DataVotesLoop (v # vs) d =
     (if vote_Eth1Data v = d then (v\<lparr>VoteCount := VoteCount v + 1\<rparr> # vs, True)
      else (case eth1DataVotesLoop vs d of (vs', added) \<Rightarrow> (v # vs', added)))"

definition ProcessEth1Data :: "BeaconState \<Rightarrow> BeaconBlock \<Rightarrow> BeaconState" where
  "ProcessEth1Data beaconState block =
     (case eth1DataVotesLoop (Eth1DataVotes beaconState) (blk_Eth1Data block) of
        (votes, eth1DataVoteAdded) \<Rightarrow>
          if \<not> eth1DataVoteAdded
          then beaconState\<lparr>Eth1DataVotes :=
                 votes @ [\<lparr>vote_Eth1Data = blk_Eth1Data block, VoteCount = 1\<rparr>]\<rparr>
          else beaconState\<lparr>Eth1DataVotes := votes\<rparr>)"

subsection \<open>Configuration and helpers of other packages\<close>

text \<open>
  The constants of \<^verbatim>\<open>params.BeaconConfig()\<close> and the functions of the packages
  \<^verbatim>\<open>helpers\<close>, \<^verbatim>\<open>validators\<close> and \<^verbatim>\<open>hashutil\<close> that this file calls are
  not part of it: they are parameters of the model. A helper that receives the
  state pointer is a function of the whole world (state and store), and one
  that returns an error returns a sum. \<^verbatim>\<open>BlockRoot\<close> is a function of
  package blocks that lives in another file.
\<close>

record env =
  MaxProposerSlashings :: u64
  MaxAttesterSlashings :: u64
  MaxAttestations :: u64
  MaxExits :: u64
  MaxIndicesPerSlashableVote :: u64
  LatestRandaoMixesLength :: u64
  MinAttestationInclusionDelay :: u64
  EpochLength :: u64
  SlotToEpoch :: "u64 \<Rightarrow> u64"
  StartSlot :: "u64 \<Rightarrow> u64"
  CurrentEpoch :: "world \<Rightarrow> u64"
  EntryExitEffectEpoch :: "u64 \<Rightarrow> u64"
  BlockRoot :: "world \<Rightarrow> u64 \<Rightarrow> error + bytes"
  BeaconProposerIdx :: "world \<Rightarrow> u64 \<Rightarrow> error + u64"
  PenalizeValidator :: "world \<Rightarrow> u64 \<Rightarrow> error + world"
  InitiateValidatorExit :: "world \<Rightarrow> u64 \<Rightarrow> world"
  Hash :: "bytes \<Rightarrow> bytes"

text \<open>
  Modelled from the spec: \<^verbatim>\<open>bytesutil.ToBytes32\<close> is missing from the sources.
  The mixes, reveals and commitments of the spec are 32-byte values and the
  function has the Go type \<^verbatim>\<open>[]byte -> [32]byte\<close>: the first 32 bytes of the
  slice, copied into a zeroed array.
\<close>

definition ToBytes32 :: "bytes \<Rightarrow> bytes" where
  "ToBytes32 x = take 32 x @ replicate (32 - length x) 0"

text \<open>
  Modelled from the spec: \<^verbatim>\<open>hashutil.RepeatHash\<close> is missing from the sources.
  Section 4.3 defines \<open>repeat_hash(x, 0) = x\<close> and
  \<open>repeat_hash(x, n) = hash(repeat_hash(x, n-1))\<close>; the hash itself is the
  parameter \<open>Hash\<close>.
\<close>

fun repeat_hash :: "(bytes \<Rightarrow> bytes) \<Rightarrow> bytes \<Rightarrow> nat \<Rightarrow> bytes" where
  "repeat_hash h x 0 = x"
| "repeat_hash h x (Suc n) = h (repeat_hash h x n)"

definition RepeatHash :: "env \<Rightarrow> bytes \<Rightarrow> u64 \<Rightarrow> bytes" where
  "RepeatHash env data numTimes = repeat_hash (Hash env) data (unat numTimes)"

text \<open>
  Modelled from the spec: \<^verbatim>\<open>mathutil.CeilDiv8\<close> is missing from the sources.
  Section 9: the bitfield length is \<open>ceil(n/8)\<close>, computed as \<open>(n + 7) >> 3\<close>.
\<close>

definition CeilDiv8 :: "nat \<Rightarrow> nat" where
  "CeilDiv8 n = (n + 7) div 8"

subsection \<open>ProcessBlockRandao\<close>

definition verifyBlockRandao :: "env \<Rightarrow> Validator \<Rightarrow> BeaconBlock \<Rightarrow> error + unit" where
  "verifyBlockRandao env proposer block =
     (let blockRandaoReveal = ToBytes32 (RandaoRevealHash32 block);
          proposerRandaoCommit = ToBytes32 (RandaoCommitmentHash32 proposer);
          randaoHashLayers = RepeatHash env blockRandaoReveal (RandaoLayers proposer)
      in if randaoHashLayers \<noteq> proposerRandaoCommit then Inl RandaoLayersMismatch
         else Inr ())"

text \<open>\<^verbatim>\<open>for i, x := range block.RandaoRevealHash32 { latestMix[i] ^= x }\<close> on the
  array \<^verbatim>\<open>latestMix\<close>: an index past the end of the array panics.\<close>

fun xorReveal :: "bytes \<Rightarrow> bytes \<Rightarrow> nat \<Rightarrow> error + bytes" where
  "xorReveal latestMix [] i = Inr latestMix"
| "xorReveal latestMix (x # xs) i =
     (if i < length latestMix
      then xorReveal (latestMix[i := (latestMix ! i) XOR x]) xs (Suc i)
      else Inl Panic)"

text \<open>
  \<^verbatim>\<open>proposer\<close> is a pointer: the two assignments to its fields change the
  object in the store, \<^verbatim>\<open>registry[proposerIndex] = proposer\<close> writes the same
  pointer back into its cell and
  \<^verbatim>\<open>beaconState.ValidatorRegistry = registry\<close> the same slice header into the
  state. The modulus panics when \<^verbatim>\<open>LatestRandaoMixesLength\<close> is 0.
\<close>

definition ProcessBlockRandao :: "env \<Rightarrow> world \<Rightarrow> BeaconBlock \<Rightarrow> error + world" where
  "ProcessBlockRandao env w block =
     (let beaconState = fst w; h = snd w in
      case BeaconProposerIdx env w (Slot beaconState) of
        Inl err \<Rightarrow> Inl (wrap CouldNotFetchProposerIndex err)
      | Inr proposerIndex \<Rightarrow>
          let registry = ValidatorRegistry beaconState in
          (case sliceIndex h registry proposerIndex of
             None \<Rightarrow> Inl Panic
           | Some proposer \<Rightarrow>
               (case verifyBlockRandao env (objs h proposer) block of
                  Inl err \<Rightarrow> Inl (wrap CouldNotVerifyBlockRandao err)
                | Inr u \<Rightarrow>
                    let latestMixesLength = LatestRandaoMixesLength env in
                    if latestMixesLength = 0 then Inl Panic
                    else
                      let k = unat (Slot beaconState mod latestMixesLength) in
                      if length (LatestRandaoMixesHash32S beaconState) \<le> k then Inl Panic
                      else
                        (case xorReveal (ToBytes32 (LatestRandaoMixesHash32S beaconState ! k))
                                 (RandaoRevealHash32 block) 0 of
                           Inl err \<Rightarrow> Inl err
                         | Inr latestMix \<Rightarrow>
                             Inr (beaconState
                                    \<lparr>LatestRandaoMixesHash32S :=
                                       (LatestRandaoMixesHash32S beaconState)[k := latestMix],
                                     ValidatorRegistry := registry\<rparr>,
                                  h\<lparr>objs := (objs h)
                                       (proposer := (objs h proposer)
                                          \<lparr>RandaoCommitmentHash32 := RandaoRevealHash32 block,
                                           RandaoLayers := 0\<rparr>),
                                     cells := (cells h)
                                       (sl_ptr registry + unat proposerIndex := proposer)\<rparr>)))))"

subsection \<open>ProcessProposerSlashings\<close>

definition verifyProposerSlashing :: "ProposerSlashing \<Rightarrow> bool \<Rightarrow> error + unit" where
  "verifyProposerSlashing slashing verifySignatures =
     (let slot1 = pd_Slot (ProposalData_1 slashing);
          slot2 = pd_Slot (ProposalData_2 slashing);
          shard1 = pd_Shard (ProposalData_1 slashing);
          shard2 = pd_Shard (ProposalData_2 slashing);
          root1 = pd_BlockRootHash32 (ProposalData_1 slashing);
          root2 = pd_BlockRootHash32 (ProposalData_2 slashing)
      in if slot1 \<noteq> slot2 then Inl ProposalSlotsDoNotMatch
         else if shard1 \<noteq> shard2 then Inl ProposalShardsDoNotMatch
         else if \<not> (root1 = root2) then Inl ProposalBlockRootsDoNotMatch
         else if verifySignatures then Inr ()
         else Inr ())"

text \<open>
  The processors of slashings return, next to their result, the indices on
  which they called \<^verbatim>\<open>v.PenalizeValidator\<close>, in the order of the calls (also
  when the block fails later). The list is a record of the run, not a value of
  the program. \<open>registry\<close> is the slice header read from the state before the
  loop; \<^verbatim>\<open>helpers.CurrentEpoch\<close> reads the state of the moment.
\<close>

fun proposerSlashingsLoop ::
  "env \<Rightarrow> sliceHeader \<Rightarrow> bool \<Rightarrow> nat \<Rightarrow> ProposerSlashing list \<Rightarrow> world \<Rightarrow> u64 list
     \<Rightarrow> (error + world) \<times> u64 list" where
  "proposerSlashingsLoop env registry verifySignatures idx [] w calls = (Inr w, calls)"
| "proposerSlashingsLoop env registry verifySignatures idx (slashing # rest) w calls =
     (case verifyProposerSlashing slashing verifySignatures of
        Inl err \<Rightarrow> (Inl (wrap (CouldNotVerifyProposerSlashing idx) err), calls)
      | Inr u \<Rightarrow>
          (case sliceIndex (snd w) registry (ProposerIndex slashing) of
             None \<Rightarrow> (Inl Panic, calls)
           | Some proposer \<Rightarrow>
               if PenalizedEpoch (objs (snd w) proposer) > CurrentEpoch env w
               then (case PenalizeValidator env w (ProposerIndex slashing) of
                       Inl err \<Rightarrow>
                         (Inl (wrap (CouldNotPenalizeProposer (ProposerIndex slashing)) err),
                          calls @ [ProposerIndex slashing])
                     | Inr w' \<Rightarrow>
                         proposerSlashingsLoop env registry verifySignatures (Suc idx) rest w'
                           (calls @ [ProposerIndex slashing]))
               else proposerSlashingsLoop env registry verifySignatures (Suc idx) rest w calls))"

definition ProcessProposerSlashings ::
  "env \<Rightarrow> world \<Rightarrow> BeaconBlock \<Rightarrow> bool \<Rightarrow> (error + world) \<times> u64 list" where
  "ProcessProposerSlashings env w block verifySignatures =
     (let body = Body block; registry = ValidatorRegistry (fst w) in
      if unat (MaxProposerSlashings env) < length (ProposerSlashings body)
      then (Inl ProposerSlashingsExceedThreshold, [])
      else proposerSlashingsLoop env registry verifySignatures 0 (ProposerSlashings body) w [])"

subsection \<open>ProcessAttesterSlashings\<close>

text \<open>The loop \<^verbatim>\<open>for i := 0; i < len(att.ValidatorIndices)-1; i++\<close>: true when
  it runs to its end, false when it returns the error.\<close>

function validatorIndicesLoop :: "u64 list \<Rightarrow> nat \<Rightarrow> bool" where
  "validatorIndicesLoop indices i =
     (if i + 1 < length indices
      then (if indices ! i \<ge> indices ! (i + 1) then False
            else validatorIndicesLoop indices (i + 1))
      else True)"
  by pat_completeness auto
termination
  by (relation "measure (\<lambda>(indices, i). length indices - i)") auto

definition verifySlashableAttestation ::
  "env \<Rightarrow> SlashableAttestation \<Rightarrow> bool \<Rightarrow> error + unit" where
  "verifySlashableAttestation env att verifySignatures =
     (let emptyCustody = replicate (length (sa_CustodyBitfield att)) 0 in
      if sa_CustodyBitfield att = emptyCustody then Inl CustodyBitfieldAllZero
      else if length (sa_ValidatorIndices att) = 0 then Inl EmptyValidatorIndices
      else if \<not> validatorIndicesLoop (sa_ValidatorIndices att) 0
        then Inl ValidatorIndicesNotOrdered
      else if length (sa_CustodyBitfield att) \<noteq> CeilDiv8 (length (sa_ValidatorIndices att))
        then Inl CustodyBitfieldLengthMismatch
      else if unat (MaxIndicesPerSlashableVote env) < length (sa_ValidatorIndices att)
        then Inl ValidatorIndicesExceedMax
      else if verifySignatures then Inr ()
      else Inr ())"

definition isDoubleVote :: "env \<Rightarrow> AttestationData \<Rightarrow> AttestationData \<Rightarrow> bool" where
  "isDoubleVote env data1 data2 =
     (SlotToEpoch env (ad_Slot data1) = SlotToEpoch env (ad_Slot data2))"

definition isSurroundVote :: "env \<Rightarrow> AttestationData \<Rightarrow> AttestationData \<Rightarrow> bool" where
  "isSurroundVote env data1 data2 =
     (let sourceEpoch1 = ad_JustifiedEpoch data1;
          sourceEpoch2 = ad_JustifiedEpoch data2;
          targetEpoch1 = SlotToEpoch env (ad_Slot data1);
          targetEpoch2 = SlotToEpoch env (ad_Slot data2)
      in sourceEpoch1 < sourceEpoch2 \<and> targetEpoch2 < targetEpoch1)"

text \<open>\<^verbatim>\<open>reflect.DeepEqual(data1, data2)\<close> on the two AttestationData: equal
  numbers, and for each hash both slices nil or both not nil with the same
  bytes. That is the equality of the records, a nil slice being \<open>None\<close>.\<close>

definition verifyAttesterSlashing :: "env \<Rightarrow> AttesterSlashing \<Rightarrow> bool \<Rightarrow> error + unit" where
  "verifyAttesterSlashing env slashing verifySignatures =
     (let slashableAttestation1 = SlashableAttestation_1 slashing;
          slashableAttestation2 = SlashableAttestation_2 slashing;
          data1 = sa_Data slashableAttestation1;
          data2 = sa_Data slashableAttestation2
      in if data1 = data2 then Inl SlashableVoteDataShouldNotMatch
         else if \<not> (isDoubleVote env data1 data2 \<or> isSurroundVote env data1 data2)
           then Inl NotDoubleNorSurroundVote
         else
           (case verifySlashableAttestation env slashableAttestation1 verifySignatures of
              Inl err \<Rightarrow> Inl (wrap CouldNotVerifySlashableAttestation1 err)
            | Inr u \<Rightarrow>
                (case verifySlashableAttestation env slashableAttestation2 verifySignatures of
                   Inl err \<Rightarrow> Inl (wrap CouldNotVerifySlashableAttestation2 err)
                 | Inr u' \<Rightarrow> Inr ())))"

text \<open>The inner loop over the indices of the second attestation, for one index
  \<open>idx1\<close> of the first; \<open>slashableIndices\<close> is the list built so far.\<close>

fun slashableIndicesInner ::
  "env \<Rightarrow> world \<Rightarrow> u64 \<Rightarrow> u64 list \<Rightarrow> u64 list \<Rightarrow> error + u64 list" where
  "slashableIndicesInner env w idx1 [] slashableIndices = Inr slashableIndices"
| "slashableIndicesInner env w idx1 (idx2 # rest) slashableIndices =
     (if idx1 = idx2
      then (case sliceIndex (snd w) (ValidatorRegistry (fst w)) idx1 of
              None \<Rightarrow> Inl Panic
            | Some validator \<Rightarrow>
                if PenalizedEpoch (objs (snd w) validator) > CurrentEpoch env w
                then slashableIndicesInner env w idx1 rest (slashableIndices @ [idx1])
                else slashableIndicesInner env w idx1 rest slashableIndices)
      else slashableIndicesInner env w idx1 rest slashableIndices)"

fun slashableIndicesOuter ::
  "env \<Rightarrow> world \<Rightarrow> u64 list \<Rightarrow> u64 list \<Rightarrow> u64 list \<Rightarrow> error + u64 list" where
  "slashableIndicesOuter env w [] indices2 slashableIndices = Inr slashableIndices"
| "slashableIndicesOuter env w (idx1 # rest) indices2 slashableIndices =
     (case slashableIndicesInner env w idx1 indices2 slashableIndices of
        Inl err \<Rightarrow> Inl err
      | Inr slashableIndices' \<Rightarrow> slashableIndicesOuter env w rest indices2 slashableIndices')"

definition attesterSlashableIndices ::
  "env \<Rightarrow> world \<Rightarrow> AttesterSlashing \<Rightarrow> error + u64 list" where
  "attesterSlashableIndices env w slashing =
     (let slashableAttestation1 = SlashableAttestation_1 slashing;
          slashableAttestation2 = SlashableAttestation_2 slashing
      in case slashableIndicesOuter env w (sa_ValidatorIndices slashableAttestation1)
                (sa_ValidatorIndices slashableAttestation2) [] of
           Inl err \<Rightarrow> Inl err
         | Inr slashableIndices \<Rightarrow>
             if length slashableIndices < 1 then Inl EmptySlashableIndices
             else Inr slashableIndices)"

fun penalizeLoop ::
  "env \<Rightarrow> u64 list \<Rightarrow> world \<Rightarrow> u64 list \<Rightarrow> (error + world) \<times> u64 list" where
  "penalizeLoop env [] w calls = (Inr w, calls)"
| "penalizeLoop env (validatorIndex # rest) w calls =
     (case PenalizeValidator env w validatorIndex of
        Inl err \<Rightarrow>
          (Inl (wrap (CouldNotPenalizeValidator validatorIndex) err), calls @ [validatorIndex])
      | Inr w' \<Rightarrow> penalizeLoop env rest w' (calls @ [validatorIndex]))"

fun attesterSlashingsLoop ::
  "env \<Rightarrow> bool \<Rightarrow> nat \<Rightarrow> AttesterSlashing list \<Rightarrow> world \<Rightarrow> u64 list
     \<Rightarrow> (error + world) \<times> u64 list" where
  "attesterSlashingsLoop env verifySignatures idx [] w calls = (Inr w, calls)"
| "attesterSlashingsLoop env verifySignatures idx (slashing # rest) w calls =
     (case verifyAttesterSlashing env slashing verifySignatures of
        Inl err \<Rightarrow> (Inl (wrap (CouldNotVerifyAttesterSlashing idx) err), calls)
      | Inr u \<Rightarrow>
          (case attesterSlashableIndices env w slashing of
             Inl err \<Rightarrow> (Inl (wrap CouldNotDetermineIndicesToSlash err), calls)
           | Inr slashableIndices \<Rightarrow>
               (case penalizeLoop env slashableIndices w calls of
                  (Inl err, calls') \<Rightarrow> (Inl err, calls')
                | (Inr w', calls') \<Rightarrow>
                    attesterSlashingsLoop env verifySignatures (Suc idx) rest w' calls')))"

definition ProcessAttesterSlashings ::
  "env \<Rightarrow> world \<Rightarrow> BeaconBlock \<Rightarrow> bool \<Rightarrow> (error + world) \<times> u64 list" where
  "ProcessAttesterSlashings env w block verifySignatures =
     (let body = Body block in
      if unat (MaxAttesterSlashings env) < length (AttesterSlashings body)
      then (Inl AttesterSlashingsExceedThreshold, [])
      else attesterSlashingsLoop env verifySignatures 0 (AttesterSlashings body) w [])"

subsection \<open>ProcessBlockAttestations\<close>

definition verifyAttestation :: "env \<Rightarrow> world \<Rightarrow> Attestation \<Rightarrow> bool \<Rightarrow> error + unit" where
  "verifyAttestation env w att verifySignatures =
     (let beaconState = fst w;
          inclusionDelay = MinAttestationInclusionDelay env
      in
      if ad_Slot (att_Data att) + inclusionDelay > Slot beaconState
        then Inl AttestationSlotTooRecent
      else if ad_Slot (att_Data att) + EpochLength env < Slot beaconState
        then Inl AttestationSlotTooOld
      else
        (case (if ad_Slot (att_Data att) \<ge> StartSlot env (SlotToEpoch env (Slot beaconState))
               then (if ad_JustifiedEpoch (att_Data att) \<noteq> JustifiedEpoch beaconState
                     then Inl JustifiedEpochMismatch else Inr ())
               else (if ad_JustifiedEpoch (att_Data att) \<noteq> PreviousJustifiedEpoch beaconState
                     then Inl PreviousJustifiedEpochMismatch else Inr ())) of
           Inl err \<Rightarrow> Inl err
         | Inr u \<Rightarrow>
        (case BlockRoot env w (StartSlot env (ad_JustifiedEpoch (att_Data att))) of
           Inl err \<Rightarrow> Inl (wrap CouldNotGetBlockRoot err)
         | Inr blockRoot \<Rightarrow>
             let justifiedBlockRoot = bytesOf (ad_JustifiedBlockRootHash32 (att_Data att)) in
             if \<not> (justifiedBlockRoot = blockRoot) then Inl JustifiedBlockRootMismatch
             else
               let crossLinkRoot = bytesOf (ad_LatestCrosslinkRootHash32 (att_Data att));
                   shardBlockRoot = bytesOf (ad_ShardBlockRootHash32 (att_Data att));
                   shard = ad_Shard (att_Data att)
               in
               if length (LatestCrosslinks beaconState) \<le> unat shard then Inl Panic
               else
                 let stateShardBlockRoot =
                       cl_ShardBlockRootHash32 (LatestCrosslinks beaconState ! unat shard)
                 in
                 if \<not> (crossLinkRoot = stateShardBlockRoot
                        \<or> shardBlockRoot = stateShardBlockRoot)
                   then Inl CrosslinkRootMismatch
                 else if \<not> (bytesOf (ad_ShardBlockRootHash32 (att_Data att)) = [])
                   then Inl ShardBlockRootNotEmpty
                 else if verifySignatures then Inr ()
                 else Inr ())))"

text \<open>The loop of ProcessBlockAttestations: it reads the state and appends to
  the local list \<^verbatim>\<open>pendingAttestations\<close>.\<close>

fun attestationsLoop ::
  "env \<Rightarrow> world \<Rightarrow> bool \<Rightarrow> nat \<Rightarrow> Attestation list \<Rightarrow> PendingAttestationRecord list
     \<Rightarrow> error + PendingAttestationRecord list" where
  "attestationsLoop env w verifySignatures idx [] pendingAttestations =
     Inr pendingAttestations"
| "attestationsLoop env w verifySignatures idx (attestation # rest) pendingAttestations =
     (case verifyAttestation env w attestation verifySignatures of
        Inl err \<Rightarrow> Inl (wrap (CouldNotVerifyAttestation idx) err)
      | Inr u \<Rightarrow>
          attestationsLoop env w verifySignatures (Suc idx) rest
            (pendingAttestations @
               [\<lparr>pa_Data = att_Data attestation,
                 pa_AggregationBitfield = att_AggregationBitfield attestation,
                 pa_CustodyBitfield = att_CustodyBitfield attestation,
                 pa_SlotIncluded = Slot (fst w)\<rparr>]))"

definition ProcessBlockAttestations ::
  "env \<Rightarrow> world \<Rightarrow> BeaconBlock \<Rightarrow> bool \<Rightarrow> error + world" where
  "ProcessBlockAttestations env w block verifySignatures =
     (let atts = Attestations (Body block) in
      if unat (MaxAttestations env) < length atts then Inl AttestationsExceedThreshold
      else
        (case attestationsLoop env w verifySignatures 0 atts [] of
           Inl err \<Rightarrow> Inl err
         | Inr pendingAttestations \<Rightarrow>
             Inr ((fst w)\<lparr>LatestAttestations := pendingAttestations\<rparr>, snd w)))"

subsection \<open>ProcessValidatorExits\<close>

definition verifyExit :: "env \<Rightarrow> world \<Rightarrow> Exit \<Rightarrow> bool \<Rightarrow> error + unit" where
  "verifyExit env w exit verifySignatures =
     (case sliceIndex (snd w) (ValidatorRegistry (fst w)) (exit_ValidatorIndex exit) of
        None \<Rightarrow> Inl Panic
      | Some validator \<Rightarrow>
          let currentEpoch = CurrentEpoch env w;
              entryExitEffectEpoch = EntryExitEffectEpoch env currentEpoch
          in
          if ExitEpoch (objs (snd w) validator) \<le> entryExitEffectEpoch
            then Inl ExitEpochNotAfterEffectEpoch
          else if currentEpoch < exit_Epoch exit then Inl ExitEpochInFuture
          else if verifySignatures then Inr ()
          else Inr ())"

fun exitsLoop :: "env \<Rightarrow> bool \<Rightarrow> nat \<Rightarrow> Exit list \<Rightarrow> world \<Rightarrow> error + world" where
  "exitsLoop env verifySignatures idx [] w = Inr w"
| "exitsLoop env verifySignatures idx (exit # rest) w =
     (case verifyExit env w exit verifySignatures of
        Inl err \<Rightarrow> Inl (wrap (CouldNotVerifyExit idx) err)
      | Inr u \<Rightarrow>
          exitsLoop env verifySignatures (Suc idx) rest
            (InitiateValidatorExit env w (exit_ValidatorIndex exit)))"

text \<open>
  \<^verbatim>\<open>validatorRegistry\<close> is the slice header of the registry before the loop
  (pointer, length and capacity); after the loop it is stored back into the
  state the loop ended with. The store is the one the loop ended with: what
  the helper changed in a cell of the registry or in a validator object stays
  changed.
\<close>

definition ProcessValidatorExits ::
  "env \<Rightarrow> world \<Rightarrow> BeaconBlock \<Rightarrow> bool \<Rightarrow> error + world" where
  "ProcessValidatorExits env w block verifySignatures =
     (let exits = Exits (Body block) in
      if unat (MaxExits env) < length exits then Inl ExitsExceedThreshold
      else
        let validatorRegistry = ValidatorRegistry (fst w) in
        (case exitsLoop env verifySignatures 0 exits w of
           Inl err \<Rightarrow> Inl err
         | Inr w' \<Rightarrow> Inr ((fst w')\<lparr>ValidatorRegistry := validatorRegistry\<rparr>, snd w')))"

subsection \<open>Vocabulary of the properties\<close>

text \<open>\<^verbatim>\<open>state.ValidatorRegistry[i]\<close>, dereferenced.\<close>

definition validatorAt :: "world \<Rightarrow> u64 \<Rightarrow> Validator" where
  "validatorAt w i =
     objs (snd w) (cells (snd w) (sl_ptr (ValidatorRegistry (fst w)) + unat i))"

text \<open>
  A validator is already slashed when its \<^verbatim>\<open>PenalizedEpoch\<close> is not greater than
  the current epoch of the state: the negation of the guard both slashing
  processors put before \<^verbatim>\<open>v.PenalizeValidator\<close>. \<open>r\<close> is the slice header
  through which the registry is read.
\<close>

definition alreadySlashed :: "env \<Rightarrow> sliceHeader \<Rightarrow> world \<Rightarrow> u64 \<Rightarrow> bool" where
  "alreadySlashed env r w i =
     (case sliceIndex (snd w) r i of
        None \<Rightarrow> False
      | Some validator \<Rightarrow> PenalizedEpoch (objs (snd w) validator) \<le> CurrentEpoch env w)"

text \<open>
  The words of the spec for voluntary exits, section 4.8: call
  \<open>initiate_validator_exit(state, exit.validator_index)\<close> for each exit, in the
  order of the list. Nothing else is done to the state.
\<close>

definition spec_exits_result :: "env \<Rightarrow> world \<Rightarrow> Exit list \<Rightarrow> world" where
  "spec_exits_result env w exits =
     foldl (\<lambda>w' exit. InitiateValidatorExit env w' (exit_ValidatorIndex exit)) w exits"

subsection \<open>A concrete configuration, state and block\<close>

text \<open>
  The values at which the theorems below are instantiated. The registry has
  eight validators, stored at the addresses 10 to 17, its slice the cells 0 to
  7; validator 1 was slashed
  in epoch 0, the others carry the far-future epoch \<open>2^64 - 1 = 18446744073709551615\<close>. The state is
  at slot 100 with 64 slots per epoch, so the current epoch is 1. The helpers
  of the configuration change validators in place, through the pointers of the
  registry.
\<close>

definition ex_validator :: "bytes \<Rightarrow> u64 \<Rightarrow> u64 \<Rightarrow> Validator" where
  "ex_validator commitment layers penalized =
     \<lparr>Pubkey = [], WithdrawalCredentialsHash32 = [],
      RandaoCommitmentHash32 = commitment, RandaoLayers = layers,
      ExitEpoch = 18446744073709551615, PenalizedEpoch = penalized\<rparr>"

definition ex_store :: store where
  "ex_store =
     \<lparr>cells = (\<lambda>c. 0)(0 := 10, 1 := 11, 2 := 12, 3 := 13, 4 := 14, 5 := 15, 6 := 16,
                         7 := 17),
      objs = (\<lambda>a. ex_validator [] 0 18446744073709551615)
               (10 := ex_validator (replicate 32 8) 1 18446744073709551615,
                11 := ex_validator [] 0 0)\<rparr>"

definition ex_eth1A :: Eth1Data where
  "ex_eth1A = \<lparr>DepositRootHash32 = [1], BlockHash32 = [2]\<rparr>"

definition ex_eth1B :: Eth1Data where
  "ex_eth1B = \<lparr>DepositRootHash32 = [3], BlockHash32 = [4]\<rparr>"

text \<open>A bytes field as the decoder of the message leaves it: nil when it is
  empty.\<close>

definition decoded :: "bytes \<Rightarrow> bytes option" where
  "decoded b = (if b = [] then None else Some b)"

definition ex_data :: "u64 \<Rightarrow> u64 \<Rightarrow> bytes \<Rightarrow> bytes \<Rightarrow> AttestationData" where
  "ex_data slot shard crosslinkRoot shardBlockRoot =
     \<lparr>ad_Slot = slot, ad_Shard = shard, ad_JustifiedEpoch = 1,
      ad_JustifiedBlockRootHash32 = Some (replicate 32 9),
      ad_LatestCrosslinkRootHash32 = decoded crosslinkRoot,
      ad_ShardBlockRootHash32 = decoded shardBlockRoot\<rparr>"

definition ex_attestation :: "u64 \<Rightarrow> u64 \<Rightarrow> bytes \<Rightarrow> bytes \<Rightarrow> Attestation" where
  "ex_attestation slot shard crosslinkRoot shardBlockRoot =
     \<lparr>att_Data = ex_data slot shard crosslinkRoot shardBlockRoot,
      att_AggregationBitfield = [1], att_CustodyBitfield = [0]\<rparr>"

definition ex_state :: BeaconState where
  "ex_state =
     \<lparr>Slot = 100,
      Eth1DataVotes = [\<lparr>vote_Eth1Data = ex_eth1A, VoteCount = 5\<rparr>,
                       \<lparr>vote_Eth1Data = ex_eth1B, VoteCount = 7\<rparr>],
      ValidatorRegistry = \<lparr>sl_ptr = 0, sl_len = 8, sl_cap = 8\<rparr>,
      LatestRandaoMixesHash32S =
        [replicate 32 1, replicate 32 2, replicate 32 3, replicate 32 4],
      LatestBlockRootHash32S = [replicate 32 9],
      LatestCrosslinks = [\<lparr>cl_ShardBlockRootHash32 = replicate 32 0\<rparr>],
      LatestAttestations =
        [\<lparr>pa_Data = ex_data 40 0 [] [], pa_AggregationBitfield = [],
          pa_CustodyBitfield = [], pa_SlotIncluded = 50\<rparr>],
      JustifiedEpoch = 1,
      PreviousJustifiedEpoch = 0\<rparr>"

definition ex_world :: world where
  "ex_world = (ex_state, ex_store)"

text \<open>A \<^verbatim>\<open>PenalizeValidator\<close> that writes the current epoch into the validator
  object the registry points to.\<close>

definition ex_PenalizeValidator :: "world \<Rightarrow> u64 \<Rightarrow> error + world" where
  "ex_PenalizeValidator w i =
     (case sliceIndex (snd w) (ValidatorRegistry (fst w)) i of
        None \<Rightarrow> Inl Panic
      | Some p \<Rightarrow>
          Inr (fst w,
               (snd w)\<lparr>objs := (objs (snd w))
                          (p := (objs (snd w) p)
                                  \<lparr>PenalizedEpoch := Slot (fst w) div 64\<rparr>)\<rparr>))"

text \<open>An \<^verbatim>\<open>InitiateValidatorExit\<close> that changes the validator object in place.\<close>

definition ex_InitiateValidatorExit :: "world \<Rightarrow> u64 \<Rightarrow> world" where
  "ex_InitiateValidatorExit w i =
     (let p = cells (snd w) (sl_ptr (ValidatorRegistry (fst w)) + unat i) in
      (fst w,
       (snd w)\<lparr>objs := (objs (snd w))
                  (p := (objs (snd w) p)\<lparr>ExitEpoch := Slot (fst w) div 64 + 5\<rparr>)\<rparr>))"

definition ex_env :: env where
  "ex_env =
     \<lparr>MaxProposerSlashings = 16, MaxAttesterSlashings = 1, MaxAttestations = 128,
      MaxExits = 16, MaxIndicesPerSlashableVote = 4096,
      LatestRandaoMixesLength = 4, MinAttestationInclusionDelay = 4, EpochLength = 64,
      SlotToEpoch = (\<lambda>slot. slot div 64),
      StartSlot = (\<lambda>epoch. epoch * 64),
      CurrentEpoch = (\<lambda>w. Slot (fst w) div 64),
      EntryExitEffectEpoch = (\<lambda>epoch. epoch + 5),
      BlockRoot = (\<lambda>w slot. Inr (replicate 32 9)),
      BeaconProposerIdx = (\<lambda>w slot. Inr 0),
      PenalizeValidator = ex_PenalizeValidator,
      InitiateValidatorExit = ex_InitiateValidatorExit,
      Hash = map (\<lambda>b. b + 1)\<rparr>"

definition ex_proposal :: "bytes \<Rightarrow> ProposalSignedData" where
  "ex_proposal root = \<lparr>pd_Slot = 10, pd_Shard = 3, pd_BlockRootHash32 = root\<rparr>"

text \<open>Scenario 2 of the spec: two proposals at slot 10 and shard 3 with distinct
  block roots, by validator 7; and the same with one block root twice.\<close>

definition ex_slashing_distinct :: ProposerSlashing where
  "ex_slashing_distinct =
     \<lparr>ProposerIndex = 7, ProposalData_1 = ex_proposal (replicate 32 1),
      ProposalData_2 = ex_proposal (replicate 32 2)\<rparr>"

definition ex_slashing_same :: "u64 \<Rightarrow> ProposerSlashing" where
  "ex_slashing_same i =
     \<lparr>ProposerIndex = i, ProposalData_1 = ex_proposal (replicate 32 1),
      ProposalData_2 = ex_proposal (replicate 32 1)\<rparr>"

definition ex_slashable :: "u64 list \<Rightarrow> u64 \<Rightarrow> SlashableAttestation" where
  "ex_slashable indices slot =
     \<lparr>sa_ValidatorIndices = indices, sa_CustodyBitfield = [1],
      sa_Data = ex_data slot 0 [] []\<rparr>"

definition ex_attester_slashing :: "u64 list \<Rightarrow> AttesterSlashing" where
  "ex_attester_slashing indices =
     \<lparr>SlashableAttestation_1 = ex_slashable indices 70,
      SlashableAttestation_2 = ex_slashable indices 71\<rparr>"

text \<open>Two attestations of the validators 1 and 2 at slot 70 whose data differ in
  one thing only: the shard block root of the first is a nil slice, that of
  the second an empty one.\<close>

definition ex_attester_slashing_nil :: AttesterSlashing where
  "ex_attester_slashing_nil =
     \<lparr>SlashableAttestation_1 = ex_slashable [1, 2] 70,
      SlashableAttestation_2 = (ex_slashable [1, 2] 70)
        \<lparr>sa_Data := (ex_data 70 0 [] [])\<lparr>ad_ShardBlockRootHash32 := Some []\<rparr>\<rparr>\<rparr>"

definition ex_body :: BeaconBlockBody where
  "ex_body =
     \<lparr>ProposerSlashings = [ex_slashing_same 1, ex_slashing_same 7],
      AttesterSlashings = [ex_attester_slashing [1, 2]],
      Attestations = [ex_attestation 96 0 (replicate 32 0) [],
                      ex_attestation 90 0 (replicate 32 0) []],
      Exits = [\<lparr>exit_Epoch = 1, exit_ValidatorIndex = 3\<rparr>,
               \<lparr>exit_Epoch = 0, exit_ValidatorIndex = 5\<rparr>]\<rparr>"

definition ex_block :: BeaconBlock where
  "ex_block = \<lparr>blk_Eth1Data = ex_eth1B, RandaoRevealHash32 = replicate 32 7, Body = ex_body\<rparr>"

section \<open>Properties\<close>

subsection \<open>ProcessEth1Data: the tally of votes\<close>

lemma eth1DataVotesLoop_miss_same:
  "d \<notin> vote_Eth1Data ` set vs \<Longrightarrow> eth1DataVotesLoop vs d = (vs, False)"
  by (induction vs) auto

lemma eth1DataVotesLoop_hit:
  "d \<in> vote_Eth1Data ` set vs \<Longrightarrow>
     \<exists>i < length vs. vote_Eth1Data (vs ! i) = d \<and> (\<forall>j < i. vote_Eth1Data (vs ! j) \<noteq> d) \<and>
       eth1DataVotesLoop vs d = (vs[i := (vs ! i)\<lparr>VoteCount := VoteCount (vs ! i) + 1\<rparr>], True)"
proof (induction vs)
  case Nil
  then show ?case by simp
next
  case (Cons v vs)
  show ?case
  proof (cases "vote_Eth1Data v = d")
    case True
    then have "vote_Eth1Data ((v # vs) ! 0) = d \<and>
       (\<forall>j < 0. vote_Eth1Data ((v # vs) ! j) \<noteq> d) \<and>
       eth1DataVotesLoop (v # vs) d =
         ((v # vs)[0 := ((v # vs) ! 0)\<lparr>VoteCount := VoteCount ((v # vs) ! 0) + 1\<rparr>], True)"
      by simp
    then show ?thesis by blast
  next
    case False
    with Cons.prems have "d \<in> vote_Eth1Data ` set vs" by auto
    from Cons.IH [OF this] obtain i where i: "i < length vs" "vote_Eth1Data (vs ! i) = d"
      "\<forall>j < i. vote_Eth1Data (vs ! j) \<noteq> d"
      "eth1DataVotesLoop vs d = (vs[i := (vs ! i)\<lparr>VoteCount := VoteCount (vs ! i) + 1\<rparr>], True)"
      by blast
    have "\<forall>j < Suc i. vote_Eth1Data ((v # vs) ! j) \<noteq> d"
      using False i(3) by (auto simp: less_Suc_eq_0_disj)
    with i False have "Suc i < length (v # vs) \<and> vote_Eth1Data ((v # vs) ! Suc i) = d \<and>
       (\<forall>j < Suc i. vote_Eth1Data ((v # vs) ! j) \<noteq> d) \<and>
       eth1DataVotesLoop (v # vs) d =
         ((v # vs)[Suc i := ((v # vs) ! Suc i)
            \<lparr>VoteCount := VoteCount ((v # vs) ! Suc i) + 1\<rparr>], True)"
      by simp
    then show ?thesis by blast
  qed
qed

lemma sum_list_VoteCount_update:
  "i < length vs \<Longrightarrow>
     sum_list (map VoteCount (vs[i := (vs ! i)\<lparr>VoteCount := VoteCount (vs ! i) + 1\<rparr>]))
       = sum_list (map VoteCount vs) + 1"
  by (induction vs arbitrary: i) (auto simp: nth_Cons' split: nat.splits if_splits)

lemma sum_list_unat_VoteCount_update:
  "i < length vs \<Longrightarrow> VoteCount (vs ! i) \<noteq> - 1 \<Longrightarrow>
     sum_list (map (\<lambda>v. unat (VoteCount v))
                 (vs[i := (vs ! i)\<lparr>VoteCount := VoteCount (vs ! i) + 1\<rparr>]))
       = sum_list (map (\<lambda>v. unat (VoteCount v)) vs) + 1"
proof (induction vs arbitrary: i)
  case Nil
  then show ?case by simp
next
  case (Cons v vs)
  show ?case
  proof (cases i)
    case 0
    with Cons.prems have "VoteCount v \<noteq> - 1" by simp
    then have "1 + VoteCount v \<noteq> 0"
      by (simp add: add_eq_0_iff)
    then have "unat (VoteCount v + 1) = unat (VoteCount v) + 1"
      using unatSuc [of "VoteCount v"] by (simp add: add.commute)
    with 0 show ?thesis by simp
  next
    case (Suc k)
    with Cons show ?thesis by simp
  qed
qed

text \<open>
  Claim C6. ProcessEth1Data has no error result and changes nothing but the
  list of tallies. Either the first tally whose \<open>eth1_data\<close> equals the block's
  gets its count incremented and every other tally stays as it is, or no
  tally matches and one tally with count 1 is appended at the end. The
  \<open>eth1_data\<close> of the old tallies keep their order, and the sum of the counts
  grows by 1: always in the \<^verbatim>\<open>uint64\<close> arithmetic of the counts, and as a sum
  of natural numbers whenever no count is at \<open>2^64 - 1\<close>, where \<^verbatim>\<open>VoteCount++\<close>
  wraps to 0.
\<close>

theorem ProcessEth1Data_tally:
  "let d = blk_Eth1Data block;
       old = Eth1DataVotes beaconState;
       new = Eth1DataVotes (ProcessEth1Data beaconState block)
   in ProcessEth1Data beaconState block = beaconState\<lparr>Eth1DataVotes := new\<rparr> \<and>
      ((\<exists>i < length old. vote_Eth1Data (old ! i) = d \<and>
            (\<forall>j < i. vote_Eth1Data (old ! j) \<noteq> d) \<and>
            new = old[i := (old ! i)\<lparr>VoteCount := VoteCount (old ! i) + 1\<rparr>])
       \<or> (d \<notin> vote_Eth1Data ` set old \<and>
            new = old @ [\<lparr>vote_Eth1Data = d, VoteCount = 1\<rparr>])) \<and>
      take (length old) (map vote_Eth1Data new) = map vote_Eth1Data old \<and>
      sum_list (map VoteCount new) = sum_list (map VoteCount old) + 1 \<and>
      ((\<forall>v \<in> set old. VoteCount v \<noteq> - 1) \<longrightarrow>
         sum_list (map (\<lambda>v. unat (VoteCount v)) new)
           = sum_list (map (\<lambda>v. unat (VoteCount v)) old) + 1)"
proof (cases "blk_Eth1Data block \<in> vote_Eth1Data ` set (Eth1DataVotes beaconState)")
  case True
  from eth1DataVotesLoop_hit [OF True] obtain i where
    i: "i < length (Eth1DataVotes beaconState)"
       "vote_Eth1Data (Eth1DataVotes beaconState ! i) = blk_Eth1Data block"
       "\<forall>j < i. vote_Eth1Data (Eth1DataVotes beaconState ! j) \<noteq> blk_Eth1Data block"
       "eth1DataVotesLoop (Eth1DataVotes beaconState) (blk_Eth1Data block) =
          ((Eth1DataVotes beaconState)[i := (Eth1DataVotes beaconState ! i)
             \<lparr>VoteCount := VoteCount (Eth1DataVotes beaconState ! i) + 1\<rparr>], True)"
    by blast
  have new: "ProcessEth1Data beaconState block = beaconState\<lparr>Eth1DataVotes :=
      (Eth1DataVotes beaconState)[i := (Eth1DataVotes beaconState ! i)
             \<lparr>VoteCount := VoteCount (Eth1DataVotes beaconState ! i) + 1\<rparr>]\<rparr>"
    by (simp add: ProcessEth1Data_def i(4))
  have keys: "map vote_Eth1Data ((Eth1DataVotes beaconState)[i := (Eth1DataVotes beaconState ! i)
             \<lparr>VoteCount := VoteCount (Eth1DataVotes beaconState ! i) + 1\<rparr>])
        = map vote_Eth1Data (Eth1DataVotes beaconState)"
    using i(1) by (simp add: map_update list_update_same_conv)
  have nowrap: "\<forall>v \<in> set (Eth1DataVotes beaconState). VoteCount v \<noteq> - 1 \<Longrightarrow>
      VoteCount (Eth1DataVotes beaconState ! i) \<noteq> - 1"
    using i(1) by simp
  show ?thesis
    unfolding Let_def new
    using i(1,2,3) keys sum_list_VoteCount_update [OF i(1)]
      sum_list_unat_VoteCount_update [OF i(1)] nowrap
    by auto
next
  case False
  then have "ProcessEth1Data beaconState block = beaconState\<lparr>Eth1DataVotes :=
      Eth1DataVotes beaconState @ [\<lparr>vote_Eth1Data = blk_Eth1Data block, VoteCount = 1\<rparr>]\<rparr>"
    by (simp add: ProcessEth1Data_def eth1DataVotesLoop_miss_same)
  with False show ?thesis by (simp add: Let_def)
qed

text \<open>At the example state the block votes for the second of two tallies
  (counts 5 and 7): the second count becomes 8.\<close>

theorem ProcessEth1Data_tally_witness:
  "VoteCount (Eth1DataVotes ex_state ! 0) \<noteq> - 1 \<and>
   VoteCount (Eth1DataVotes ex_state ! 1) \<noteq> - 1 \<and>
   length (Eth1DataVotes ex_state) = 2 \<and>
   vote_Eth1Data (Eth1DataVotes ex_state ! 1) = blk_Eth1Data ex_block \<and>
   Eth1DataVotes (ProcessEth1Data ex_state ex_block) =
     [\<lparr>vote_Eth1Data = ex_eth1A, VoteCount = 5\<rparr>, \<lparr>vote_Eth1Data = ex_eth1B, VoteCount = 8\<rparr>] \<and>
   sum_list (map (\<lambda>v. unat (VoteCount v)) (Eth1DataVotes (ProcessEth1Data ex_state ex_block)))
     = sum_list (map (\<lambda>v. unat (VoteCount v)) (Eth1DataVotes ex_state)) + 1"
  using ProcessEth1Data_tally [of ex_block ex_state]
  by (simp add: Let_def ex_state_def ex_block_def ex_eth1A_def ex_eth1B_def ProcessEth1Data_def)

subsection \<open>Unfolding the example\<close>

lemmas ex_defs = ex_env_def ex_world_def ex_state_def ex_store_def ex_block_def ex_body_def
  ex_attestation_def ex_data_def ex_validator_def ex_slashing_distinct_def ex_slashing_same_def
  ex_proposal_def ex_slashable_def ex_attester_slashing_def ex_eth1A_def ex_eth1B_def
  decoded_def bytesOf_def

subsection \<open>verifyProposerSlashing: the comparison of the block roots\<close>

lemma verifyProposerSlashing_accepts:
  "verifyProposerSlashing slashing vs = Inr () \<longleftrightarrow>
     pd_Slot (ProposalData_1 slashing) = pd_Slot (ProposalData_2 slashing) \<and>
     pd_Shard (ProposalData_1 slashing) = pd_Shard (ProposalData_2 slashing) \<and>
     pd_BlockRootHash32 (ProposalData_1 slashing) = pd_BlockRootHash32 (ProposalData_2 slashing)"
  by (simp add: verifyProposerSlashing_def Let_def)

text \<open>
  Claim C1 says a proposer slashing is accepted only when its two block roots
  differ, and that equal roots abort the block. The code does the opposite:
  \<^verbatim>\<open>if !bytes.Equal(root1, root2)\<close> returns the error when the roots differ.
  At scenario 2 of the spec (slot 10, shard 3, distinct roots, validator 7) the
  slashing is refused and the block aborted with no validator penalized; the
  same slashing with one root twice is accepted and validator 7 penalized.
\<close>

theorem proposer_slashing_distinct_roots_refused:
  "verifyProposerSlashing ex_slashing_distinct False = Inl ProposalBlockRootsDoNotMatch \<and>
   ProcessProposerSlashings ex_env ex_world
       (ex_block\<lparr>Body := ex_body\<lparr>ProposerSlashings := [ex_slashing_distinct]\<rparr>\<rparr>) False
     = (Inl (CouldNotVerifyProposerSlashing 0 ProposalBlockRootsDoNotMatch), []) \<and>
   verifyProposerSlashing (ex_slashing_same 7) False = Inr () \<and>
   snd (ProcessProposerSlashings ex_env ex_world
       (ex_block\<lparr>Body := ex_body\<lparr>ProposerSlashings := [ex_slashing_same 7]\<rparr>\<rparr>) False) = [7]"
  by (simp add: ex_defs verifyProposerSlashing_def ProcessProposerSlashings_def wrap_def
      sliceIndex_def ex_PenalizeValidator_def)

subsection \<open>verifyAttestation: the shard block root\<close>

text \<open>
  Claim C3 says an attestation passes the phase-0 rule exactly when its
  \<open>shard_block_root\<close> is the hash of 32 zero bytes. The code compares with the
  empty slice, \<^verbatim>\<open>bytes.Equal(att.Data.ShardBlockRootHash32, []byte{})\<close>: at the
  example state an attestation that passes every earlier check and carries 32
  zero bytes is refused, and the same attestation with an empty root (its
  crosslink root matching the state) is accepted.
\<close>

theorem shard_block_root_of_32_zero_bytes_refused:
  "verifyAttestation ex_env ex_world (ex_attestation 96 0 [] (replicate 32 0)) False
     = Inl ShardBlockRootNotEmpty \<and>
   verifyAttestation ex_env ex_world (ex_attestation 96 0 (replicate 32 0) []) False = Inr ()"
  by (simp add: ex_defs verifyAttestation_def)

subsection \<open>verifyAttestation: the inclusion window\<close>

lemma wrap_neq_window:
  "wrap CouldNotGetBlockRoot e \<noteq> AttestationSlotTooRecent"
  "wrap CouldNotGetBlockRoot e \<noteq> AttestationSlotTooOld"
  by (simp_all add: wrap_def)

lemma verifyAttestation_too_recent:
  "verifyAttestation env w att vs = Inl AttestationSlotTooRecent \<longleftrightarrow>
     ad_Slot (att_Data att) + MinAttestationInclusionDelay env > Slot (fst w)"
  by (auto simp: verifyAttestation_def Let_def wrap_neq_window split: sum.splits if_splits)

lemma verifyAttestation_too_old:
  "verifyAttestation env w att vs = Inl AttestationSlotTooOld \<longleftrightarrow>
     \<not> ad_Slot (att_Data att) + MinAttestationInclusionDelay env > Slot (fst w) \<and>
     ad_Slot (att_Data att) + EpochLength env < Slot (fst w)"
  by (auto simp: verifyAttestation_def Let_def wrap_neq_window split: sum.splits if_splits)

lemma unat_plus_no_overflow:
  "unat (a :: u64) + unat b < 2 ^ 64 \<Longrightarrow> unat (a + b) = unat a + unat b"
  using unat_add_lem [of a b] by simp

text \<open>
  Claim C4. verifyAttestation returns one of the two window errors exactly when
  \<open>att.slot + MIN_ATTESTATION_INCLUSION_DELAY > state.slot\<close> or
  \<open>att.slot + EPOCH_LENGTH < state.slot\<close>, the sums being those of the code
  (\<^verbatim>\<open>uint64\<close>, wrapping at \<open>2^64\<close>); where neither sum wraps this is the same
  condition on the numbers. With \<open>state.slot = 100\<close>, delay 4 and epoch length
  64, slot 96 passes the window check, slot 97 is too recent and slot 35 too
  old.
\<close>

theorem verifyAttestation_inclusion_window:
  "(verifyAttestation env w att vs \<in> {Inl AttestationSlotTooRecent, Inl AttestationSlotTooOld}
      \<longleftrightarrow> ad_Slot (att_Data att) + MinAttestationInclusionDelay env > Slot (fst w)
          \<or> ad_Slot (att_Data att) + EpochLength env < Slot (fst w)) \<and>
   (unat (ad_Slot (att_Data att)) + unat (MinAttestationInclusionDelay env) < 2 ^ 64 \<and>
    unat (ad_Slot (att_Data att)) + unat (EpochLength env) < 2 ^ 64 \<longrightarrow>
      (verifyAttestation env w att vs \<in> {Inl AttestationSlotTooRecent, Inl AttestationSlotTooOld}
        \<longleftrightarrow> unat (ad_Slot (att_Data att)) + unat (MinAttestationInclusionDelay env)
               > unat (Slot (fst w))
            \<or> unat (ad_Slot (att_Data att)) + unat (EpochLength env) < unat (Slot (fst w)))) \<and>
   (Slot (fst w) = 100 \<and> MinAttestationInclusionDelay env = 4 \<and> EpochLength env = 64 \<longrightarrow>
      (ad_Slot (att_Data att) = 96 \<longrightarrow>
         verifyAttestation env w att vs
           \<notin> {Inl AttestationSlotTooRecent, Inl AttestationSlotTooOld}) \<and>
      (ad_Slot (att_Data att) = 97 \<longrightarrow>
         verifyAttestation env w att vs = Inl AttestationSlotTooRecent) \<and>
      (ad_Slot (att_Data att) = 35 \<longrightarrow>
         verifyAttestation env w att vs = Inl AttestationSlotTooOld))"
proof -
  have iff: "verifyAttestation env w att vs
        \<in> {Inl AttestationSlotTooRecent, Inl AttestationSlotTooOld}
      \<longleftrightarrow> ad_Slot (att_Data att) + MinAttestationInclusionDelay env > Slot (fst w)
          \<or> ad_Slot (att_Data att) + EpochLength env < Slot (fst w)"
    using verifyAttestation_too_recent [of env w att vs]
      verifyAttestation_too_old [of env w att vs] by auto
  have nat_reading: "(ad_Slot (att_Data att) + MinAttestationInclusionDelay env > Slot (fst w)
          \<or> ad_Slot (att_Data att) + EpochLength env < Slot (fst w))
      \<longleftrightarrow> (unat (ad_Slot (att_Data att)) + unat (MinAttestationInclusionDelay env)
               > unat (Slot (fst w))
            \<or> unat (ad_Slot (att_Data att)) + unat (EpochLength env) < unat (Slot (fst w)))"
    if "unat (ad_Slot (att_Data att)) + unat (MinAttestationInclusionDelay env) < 2 ^ 64"
       "unat (ad_Slot (att_Data att)) + unat (EpochLength env) < 2 ^ 64"
    using that by (simp add: word_less_nat_alt unat_plus_no_overflow)
  have c96: "verifyAttestation env w att vs
           \<notin> {Inl AttestationSlotTooRecent, Inl AttestationSlotTooOld}"
    if "Slot (fst w) = 100" "MinAttestationInclusionDelay env = 4" "EpochLength env = 64"
       "ad_Slot (att_Data att) = 96"
    using that unfolding iff by simp
  have c97: "verifyAttestation env w att vs = Inl AttestationSlotTooRecent"
    if "Slot (fst w) = 100" "MinAttestationInclusionDelay env = 4" "EpochLength env = 64"
       "ad_Slot (att_Data att) = 97"
    using that unfolding verifyAttestation_too_recent by simp
  have c35: "verifyAttestation env w att vs = Inl AttestationSlotTooOld"
    if "Slot (fst w) = 100" "MinAttestationInclusionDelay env = 4" "EpochLength env = 64"
       "ad_Slot (att_Data att) = 35"
    using that unfolding verifyAttestation_too_old by simp
  show ?thesis
    using iff nat_reading c96 c97 c35 by blast
qed

theorem verifyAttestation_inclusion_window_witness:
  "Slot (fst ex_world) = 100 \<and> MinAttestationInclusionDelay ex_env = 4 \<and> EpochLength ex_env = 64 \<and>
   verifyAttestation ex_env ex_world (ex_attestation 96 0 (replicate 32 0) []) False
     \<notin> {Inl AttestationSlotTooRecent, Inl AttestationSlotTooOld} \<and>
   verifyAttestation ex_env ex_world (ex_attestation 97 0 (replicate 32 0) []) False
     = Inl AttestationSlotTooRecent \<and>
   verifyAttestation ex_env ex_world (ex_attestation 35 0 (replicate 32 0) []) False
     = Inl AttestationSlotTooOld"
proof -
  have s: "Slot (fst ex_world) = 100 \<and> MinAttestationInclusionDelay ex_env = 4 \<and> EpochLength ex_env = 64"
    by (simp add: ex_world_def ex_state_def ex_env_def)
  have a: "ad_Slot (att_Data (ex_attestation n 0 (replicate 32 0) [])) = n" for n
    by (simp add: ex_attestation_def ex_data_def)
  show ?thesis
    using s
      verifyAttestation_inclusion_window [of ex_env ex_world "ex_attestation 96 0 (replicate 32 0) []" False]
      verifyAttestation_inclusion_window [of ex_env ex_world "ex_attestation 97 0 (replicate 32 0) []" False]
      verifyAttestation_inclusion_window [of ex_env ex_world "ex_attestation 35 0 (replicate 32 0) []" False]
    unfolding a by blast
qed

subsection \<open>ProcessBlockAttestations: the pending attestations\<close>

lemma attestationsLoop_Inr:
  "attestationsLoop env w vs idx atts pending = Inr result \<longleftrightarrow>
     (\<forall>a \<in> set atts. verifyAttestation env w a vs = Inr ()) \<and>
     result = pending @ map (\<lambda>a. \<lparr>pa_Data = att_Data a,
                 pa_AggregationBitfield = att_AggregationBitfield a,
                 pa_CustodyBitfield = att_CustodyBitfield a,
                 pa_SlotIncluded = Slot (fst w)\<rparr>) atts"
proof (induction atts arbitrary: idx pending)
  case Nil
  then show ?case by auto
next
  case (Cons a atts)
  show ?case
  proof (cases "verifyAttestation env w a vs")
    case (Inl e)
    then show ?thesis by simp
  next
    case (Inr u)
    then show ?thesis using Cons.IH by simp
  qed
qed

text \<open>
  Claim C5. ProcessBlockAttestations succeeds exactly when the block has at most
  \<open>MAX_ATTESTATIONS\<close> attestations and each of them verifies against the state;
  the state it returns differs from the old one only in \<open>latest_attestations\<close>,
  which is one pending record per attestation of the block, in the order of
  the block, with the attestation's data and bitfields and
  \<open>slot_included = state.slot\<close>. What the list held before is gone, and its
  length is the number of attestations of the block.
\<close>

theorem ProcessBlockAttestations_latest:
  "(ProcessBlockAttestations env w block vs = Inr w' \<longleftrightarrow>
      length (Attestations (Body block)) \<le> unat (MaxAttestations env) \<and>
      (\<forall>a \<in> set (Attestations (Body block)). verifyAttestation env w a vs = Inr ()) \<and>
      w' = ((fst w)\<lparr>LatestAttestations :=
               map (\<lambda>a. \<lparr>pa_Data = att_Data a,
                         pa_AggregationBitfield = att_AggregationBitfield a,
                         pa_CustodyBitfield = att_CustodyBitfield a,
                         pa_SlotIncluded = Slot (fst w)\<rparr>) (Attestations (Body block))\<rparr>,
            snd w)) \<and>
   (ProcessBlockAttestations env w block vs = Inr w' \<longrightarrow>
      length (LatestAttestations (fst w')) = length (Attestations (Body block)))"
proof -
  have iff: "ProcessBlockAttestations env w block vs = Inr w' \<longleftrightarrow>
      length (Attestations (Body block)) \<le> unat (MaxAttestations env) \<and>
      (\<forall>a \<in> set (Attestations (Body block)). verifyAttestation env w a vs = Inr ()) \<and>
      w' = ((fst w)\<lparr>LatestAttestations :=
               map (\<lambda>a. \<lparr>pa_Data = att_Data a,
                         pa_AggregationBitfield = att_AggregationBitfield a,
                         pa_CustodyBitfield = att_CustodyBitfield a,
                         pa_SlotIncluded = Slot (fst w)\<rparr>) (Attestations (Body block))\<rparr>,
            snd w)"
  proof (cases "attestationsLoop env w vs 0 (Attestations (Body block)) []")
    case (Inl e)
    then have "\<not> (\<forall>a \<in> set (Attestations (Body block)). verifyAttestation env w a vs = Inr ())"
      using attestationsLoop_Inr [of env w vs 0 "Attestations (Body block)" "[]"] by auto
    with Inl show ?thesis by (auto simp: ProcessBlockAttestations_def Let_def)
  next
    case (Inr pending)
    then show ?thesis
      using attestationsLoop_Inr [of env w vs 0 "Attestations (Body block)" "[]" pending]
      by (auto simp: ProcessBlockAttestations_def Let_def)
  qed
  then show ?thesis by auto
qed

text \<open>The example state holds one older pending record; the block has two
  attestations that verify.\<close>

theorem ProcessBlockAttestations_latest_witness:
  "length (Attestations (Body ex_block)) \<le> unat (MaxAttestations ex_env) \<and>
   verifyAttestation ex_env ex_world (ex_attestation 96 0 (replicate 32 0) []) False = Inr () \<and>
   verifyAttestation ex_env ex_world (ex_attestation 90 0 (replicate 32 0) []) False = Inr () \<and>
   length (LatestAttestations (fst ex_world)) = 1 \<and>
   ProcessBlockAttestations ex_env ex_world ex_block False =
     Inr (ex_state\<lparr>LatestAttestations :=
            [\<lparr>pa_Data = ex_data 96 0 (replicate 32 0) [], pa_AggregationBitfield = [1],
              pa_CustodyBitfield = [0], pa_SlotIncluded = 100\<rparr>,
             \<lparr>pa_Data = ex_data 90 0 (replicate 32 0) [], pa_AggregationBitfield = [1],
              pa_CustodyBitfield = [0], pa_SlotIncluded = 100\<rparr>]\<rparr>, ex_store)"
proof -
  have v: "verifyAttestation ex_env ex_world (ex_attestation 96 0 (replicate 32 0) []) False = Inr ()"
     "verifyAttestation ex_env ex_world (ex_attestation 90 0 (replicate 32 0) []) False = Inr ()"
    by (simp_all add: ex_defs verifyAttestation_def)
  have a: "Attestations (Body ex_block) =
      [ex_attestation 96 0 (replicate 32 0) [], ex_attestation 90 0 (replicate 32 0) []]"
    by (simp add: ex_block_def ex_body_def)
  have m: "length (Attestations (Body ex_block)) \<le> unat (MaxAttestations ex_env)"
    by (simp add: a ex_env_def)
  have l: "length (LatestAttestations (fst ex_world)) = 1"
    by (simp add: ex_world_def ex_state_def)
  show ?thesis
    using v m l
      ProcessBlockAttestations_latest [of ex_env ex_world ex_block False
        "(ex_state\<lparr>LatestAttestations :=
            [\<lparr>pa_Data = ex_data 96 0 (replicate 32 0) [], pa_AggregationBitfield = [1],
              pa_CustodyBitfield = [0], pa_SlotIncluded = 100\<rparr>,
             \<lparr>pa_Data = ex_data 90 0 (replicate 32 0) [], pa_AggregationBitfield = [1],
              pa_CustodyBitfield = [0], pa_SlotIncluded = 100\<rparr>]\<rparr>, ex_store)"]
    by (simp add: a ex_world_def ex_attestation_def ex_state_def)
qed

subsection \<open>verifySlashableAttestation: the order of the indices\<close>

declare validatorIndicesLoop.simps [simp del]

lemma validatorIndicesLoop_iff:
  "validatorIndicesLoop indices i \<longleftrightarrow>
     (\<forall>j. i \<le> j \<and> j + 1 < length indices \<longrightarrow> indices ! j < indices ! (j + 1))"
proof (induction indices i rule: validatorIndicesLoop.induct)
  case (1 indices i)
  show ?case
  proof (cases "i + 1 < length indices")
    case False
    then show ?thesis by (subst validatorIndicesLoop.simps) auto
  next
    case True
    show ?thesis
    proof (cases "indices ! i \<ge> indices ! (i + 1)")
      case True
      with \<open>i + 1 < length indices\<close> show ?thesis
        by (subst validatorIndicesLoop.simps) (auto simp: not_less [symmetric])
    next
      case False
      have here: "indices ! i < indices ! (i + 1)"
        using False by simp
      have "(\<forall>j. i \<le> j \<and> j + 1 < length indices \<longrightarrow> indices ! j < indices ! (j + 1)) \<longleftrightarrow>
            (\<forall>j. i + 1 \<le> j \<and> j + 1 < length indices \<longrightarrow> indices ! j < indices ! (j + 1))"
      proof (intro iffI allI impI)
        fix j
        assume "\<forall>j. i \<le> j \<and> j + 1 < length indices \<longrightarrow> indices ! j < indices ! (j + 1)"
          and "i + 1 \<le> j \<and> j + 1 < length indices"
        then show "indices ! j < indices ! (j + 1)" by simp
      next
        fix j
        assume later: "\<forall>j. i + 1 \<le> j \<and> j + 1 < length indices \<longrightarrow> indices ! j < indices ! (j + 1)"
          and j: "i \<le> j \<and> j + 1 < length indices"
        show "indices ! j < indices ! (j + 1)"
        proof (cases "j = i")
          case True
          with here show ?thesis by simp
        next
          case False
          with j have "i + 1 \<le> j" by simp
          with later j show ?thesis by blast
        qed
      qed
      with True False "1.IH" show ?thesis
        by (subst validatorIndicesLoop.simps) simp
    qed
  qed
qed

lemma validatorIndicesLoop_sorted:
  "validatorIndicesLoop indices 0 \<longleftrightarrow> sorted_wrt (<) indices"
  by (simp add: validatorIndicesLoop_iff sorted_wrt_iff_nth_Suc_transp)

text \<open>
  Claim C8. A slashable attestation whose \<open>validator_indices\<close> are empty or not
  strictly ascending is refused. The error for empty indices is returned
  exactly when the custody bitfield is not all zero (that check comes first)
  and the list is empty; the error for the order exactly when, in addition to
  the two earlier checks passing, some adjacent pair has
  \<open>indices[i] \<ge> indices[i+1]\<close>; and the loop over the indices runs to its end
  exactly when \<open>indices[i] < indices[i+1]\<close> for every adjacent pair.
\<close>

theorem verifySlashableAttestation_indices:
  "(sa_ValidatorIndices att = [] \<or> \<not> sorted_wrt (<) (sa_ValidatorIndices att)
      \<longrightarrow> isl (verifySlashableAttestation env att vs)) \<and>
   (verifySlashableAttestation env att vs = Inl EmptyValidatorIndices \<longleftrightarrow>
      sa_CustodyBitfield att \<noteq> replicate (length (sa_CustodyBitfield att)) 0 \<and>
      sa_ValidatorIndices att = []) \<and>
   (verifySlashableAttestation env att vs = Inl ValidatorIndicesNotOrdered \<longleftrightarrow>
      sa_CustodyBitfield att \<noteq> replicate (length (sa_CustodyBitfield att)) 0 \<and>
      sa_ValidatorIndices att \<noteq> [] \<and>
      (\<exists>i. i + 1 < length (sa_ValidatorIndices att) \<and>
           sa_ValidatorIndices att ! i \<ge> sa_ValidatorIndices att ! (i + 1))) \<and>
   (validatorIndicesLoop (sa_ValidatorIndices att) 0 \<longleftrightarrow>
      (\<forall>i. i + 1 < length (sa_ValidatorIndices att) \<longrightarrow>
           sa_ValidatorIndices att ! i < sa_ValidatorIndices att ! (i + 1)))"
proof -
  have loop: "validatorIndicesLoop (sa_ValidatorIndices att) 0 \<longleftrightarrow>
      (\<forall>i. i + 1 < length (sa_ValidatorIndices att) \<longrightarrow>
           sa_ValidatorIndices att ! i < sa_ValidatorIndices att ! (i + 1))"
    by (simp add: validatorIndicesLoop_iff)
  have unordered: "\<not> validatorIndicesLoop (sa_ValidatorIndices att) 0 \<longleftrightarrow>
      (\<exists>i. i + 1 < length (sa_ValidatorIndices att) \<and>
           sa_ValidatorIndices att ! i \<ge> sa_ValidatorIndices att ! (i + 1))"
    unfolding loop by (auto simp: not_less)
  have fails: "isl (verifySlashableAttestation env att vs)"
    if "sa_ValidatorIndices att = [] \<or> \<not> sorted_wrt (<) (sa_ValidatorIndices att)"
    using that by (auto simp: verifySlashableAttestation_def Let_def validatorIndicesLoop_sorted)
  have empty: "verifySlashableAttestation env att vs = Inl EmptyValidatorIndices \<longleftrightarrow>
      sa_CustodyBitfield att \<noteq> replicate (length (sa_CustodyBitfield att)) 0 \<and>
      sa_ValidatorIndices att = []"
    by (auto simp: verifySlashableAttestation_def Let_def)
  have order: "verifySlashableAttestation env att vs = Inl ValidatorIndicesNotOrdered \<longleftrightarrow>
      sa_CustodyBitfield att \<noteq> replicate (length (sa_CustodyBitfield att)) 0 \<and>
      sa_ValidatorIndices att \<noteq> [] \<and> \<not> validatorIndicesLoop (sa_ValidatorIndices att) 0"
    by (auto simp: verifySlashableAttestation_def Let_def)
  show ?thesis
    using fails empty loop order unordered by blast
qed

theorem verifySlashableAttestation_indices_witness:
  "\<not> sorted_wrt (<) (sa_ValidatorIndices (ex_slashable [3, 3] 70)) \<and>
   isl (verifySlashableAttestation ex_env (ex_slashable [3, 3] 70) False) \<and>
   \<not> sorted_wrt (<) (sa_ValidatorIndices (ex_slashable [4, 3] 70)) \<and>
   isl (verifySlashableAttestation ex_env (ex_slashable [4, 3] 70) False) \<and>
   sa_ValidatorIndices (ex_slashable [] 70) = [] \<and>
   isl (verifySlashableAttestation ex_env (ex_slashable [] 70) False) \<and>
   verifySlashableAttestation ex_env (ex_slashable [3, 4] 70) False = Inr ()"
proof -
  have a: "\<not> sorted_wrt (<) (sa_ValidatorIndices (ex_slashable [3, 3] 70))"
    and b: "\<not> sorted_wrt (<) (sa_ValidatorIndices (ex_slashable [4, 3] 70))"
    and c: "sa_ValidatorIndices (ex_slashable [] 70) = []"
    by (simp_all add: ex_slashable_def)
  have d: "verifySlashableAttestation ex_env (ex_slashable [3, 4] 70) False = Inr ()"
    by (simp add: verifySlashableAttestation_def ex_slashable_def ex_env_def
        validatorIndicesLoop_sorted CeilDiv8_def)
  show ?thesis
    using a b c d
      verifySlashableAttestation_indices [of "ex_slashable [3, 3] 70" ex_env False]
      verifySlashableAttestation_indices [of "ex_slashable [4, 3] 70" ex_env False]
      verifySlashableAttestation_indices [of "ex_slashable [] 70" ex_env False]
    by blast
qed

subsection \<open>Indices taken from the operations\<close>

lemma slashableIndicesInner_panic:
  "idx1 \<in> set indices2 \<Longrightarrow> sliceIndex (snd w) (ValidatorRegistry (fst w)) idx1 = None \<Longrightarrow>
     slashableIndicesInner env w idx1 indices2 acc = Inl Panic"
  by (induction indices2 arbitrary: acc) auto

lemma slashableIndicesInner_Inl:
  "slashableIndicesInner env w idx1 indices2 acc = Inl e \<Longrightarrow> e = Panic"
  by (induction indices2 arbitrary: acc) (auto split: if_splits option.splits)

lemma slashableIndicesOuter_panic:
  "i \<in> set indices1 \<Longrightarrow> i \<in> set indices2 \<Longrightarrow>
     sliceIndex (snd w) (ValidatorRegistry (fst w)) i = None \<Longrightarrow>
     slashableIndicesOuter env w indices1 indices2 acc = Inl Panic"
proof (induction indices1 arbitrary: acc)
  case Nil
  then show ?case by simp
next
  case (Cons idx1 rest)
  show ?case
  proof (cases "slashableIndicesInner env w idx1 indices2 acc")
    case (Inl e)
    then show ?thesis using slashableIndicesInner_Inl [OF Inl] by simp
  next
    case (Inr acc')
    then have "idx1 \<noteq> i"
      using slashableIndicesInner_panic [of i indices2 w env acc] Cons.prems by auto
    with Cons.prems have "i \<in> set rest" by simp
    from Cons.IH [OF this Cons.prems(2,3)] Inr show ?thesis by simp
  qed
qed

lemma sliceIndex_None: "sliceIndex h r i = None \<longleftrightarrow> sl_len r \<le> unat i"
  by (auto simp: sliceIndex_def)

text \<open>
  Claim C10. The processors index arrays of the state with indices read from
  the operations and check no bound; in the model the branch of the panic is
  taken. The loop of ProcessProposerSlashings panics at a slashing that passes
  verifyProposerSlashing and whose \<open>proposer_index\<close> is not below the length
  of the registry, and so does the processor when that is the first slashing
  of the block; attesterSlashableIndices when an index common to both
  attestations is not below it; verifyExit when \<open>exit.validator_index\<close> is not
  below it; verifyAttestation when the checks before the crosslink pass and
  \<open>att.data.shard\<close> is not below the length of \<open>latest_crosslinks\<close>.
\<close>

theorem operation_index_out_of_range_panics:
  "(verifyProposerSlashing slashing vs = Inr () \<and>
    sl_len r \<le> unat (ProposerIndex slashing)
      \<longrightarrow> proposerSlashingsLoop env r vs idx (slashing # rest) w calls = (Inl Panic, calls)) \<and>
   (ProposerSlashings (Body block) = slashing # rest \<and>
    length (slashing # rest) \<le> unat (MaxProposerSlashings env) \<and>
    verifyProposerSlashing slashing vs = Inr () \<and>
    sl_len (ValidatorRegistry (fst w)) \<le> unat (ProposerIndex slashing)
      \<longrightarrow> fst (ProcessProposerSlashings env w block vs) = Inl Panic) \<and>
   (i \<in> set (sa_ValidatorIndices (SlashableAttestation_1 aslashing)) \<and>
    i \<in> set (sa_ValidatorIndices (SlashableAttestation_2 aslashing)) \<and>
    sl_len (ValidatorRegistry (fst w)) \<le> unat i
      \<longrightarrow> attesterSlashableIndices env w aslashing = Inl Panic) \<and>
   (sl_len (ValidatorRegistry (fst w)) \<le> unat (exit_ValidatorIndex exit)
      \<longrightarrow> verifyExit env w exit vs = Inl Panic) \<and>
   (\<not> ad_Slot (att_Data att) + MinAttestationInclusionDelay env > Slot (fst w) \<and>
    \<not> ad_Slot (att_Data att) + EpochLength env < Slot (fst w) \<and>
    ad_JustifiedEpoch (att_Data att) =
      (if ad_Slot (att_Data att) \<ge> StartSlot env (SlotToEpoch env (Slot (fst w)))
       then JustifiedEpoch (fst w) else PreviousJustifiedEpoch (fst w)) \<and>
    BlockRoot env w (StartSlot env (ad_JustifiedEpoch (att_Data att)))
      = Inr (bytesOf (ad_JustifiedBlockRootHash32 (att_Data att))) \<and>
    length (LatestCrosslinks (fst w)) \<le> unat (ad_Shard (att_Data att))
      \<longrightarrow> verifyAttestation env w att vs = Inl Panic)"
proof -
  have l: "proposerSlashingsLoop env r vs idx (slashing # rest) w calls = (Inl Panic, calls)"
    if "verifyProposerSlashing slashing vs = Inr ()"
       "sl_len r \<le> unat (ProposerIndex slashing)"
    using that by (simp add: sliceIndex_def)
  have p: "fst (ProcessProposerSlashings env w block vs) = Inl Panic"
    if "ProposerSlashings (Body block) = slashing # rest"
       "length (slashing # rest) \<le> unat (MaxProposerSlashings env)"
       "verifyProposerSlashing slashing vs = Inr ()"
       "sl_len (ValidatorRegistry (fst w)) \<le> unat (ProposerIndex slashing)"
    using that by (simp add: ProcessProposerSlashings_def Let_def sliceIndex_def)
  have a: "attesterSlashableIndices env w aslashing = Inl Panic"
    if "i \<in> set (sa_ValidatorIndices (SlashableAttestation_1 aslashing))"
       "i \<in> set (sa_ValidatorIndices (SlashableAttestation_2 aslashing))"
       "sl_len (ValidatorRegistry (fst w)) \<le> unat i"
    using slashableIndicesOuter_panic [OF that(1,2), of w env "[]"] that(3)
    by (simp add: attesterSlashableIndices_def Let_def sliceIndex_None)
  have e: "verifyExit env w exit vs = Inl Panic"
    if "sl_len (ValidatorRegistry (fst w)) \<le> unat (exit_ValidatorIndex exit)"
    using that by (simp add: verifyExit_def sliceIndex_def)
  have v: "verifyAttestation env w att vs = Inl Panic"
    if "\<not> ad_Slot (att_Data att) + MinAttestationInclusionDelay env > Slot (fst w)"
       "\<not> ad_Slot (att_Data att) + EpochLength env < Slot (fst w)"
       "ad_JustifiedEpoch (att_Data att) =
         (if ad_Slot (att_Data att) \<ge> StartSlot env (SlotToEpoch env (Slot (fst w)))
          then JustifiedEpoch (fst w) else PreviousJustifiedEpoch (fst w))"
       "BlockRoot env w (StartSlot env (ad_JustifiedEpoch (att_Data att)))
         = Inr (bytesOf (ad_JustifiedBlockRootHash32 (att_Data att)))"
       "length (LatestCrosslinks (fst w)) \<le> unat (ad_Shard (att_Data att))"
    using that
    by (cases "ad_Slot (att_Data att) \<ge> StartSlot env (SlotToEpoch env (Slot (fst w)))")
       (simp_all add: verifyAttestation_def Let_def)
  show ?thesis using l p a e v by blast
qed

text \<open>In the example the registry has eight validators and the state one
  crosslink: index 9 and shard 5 are out of range.\<close>

theorem operation_index_out_of_range_panics_witness:
  "sl_len (ValidatorRegistry (fst ex_world)) = 8 \<and>
   length (LatestCrosslinks (fst ex_world)) = 1 \<and>
   verifyProposerSlashing (ex_slashing_same 9) False = Inr () \<and>
   fst (ProcessProposerSlashings ex_env ex_world
          (ex_block\<lparr>Body := ex_body\<lparr>ProposerSlashings := [ex_slashing_same 9]\<rparr>\<rparr>) False)
     = Inl Panic \<and>
   attesterSlashableIndices ex_env ex_world (ex_attester_slashing [1, 9]) = Inl Panic \<and>
   verifyExit ex_env ex_world \<lparr>exit_Epoch = 1, exit_ValidatorIndex = 9\<rparr> False = Inl Panic \<and>
   verifyAttestation ex_env ex_world (ex_attestation 96 5 (replicate 32 0) []) False = Inl Panic"
proof -
  have len: "sl_len (ValidatorRegistry (fst ex_world)) = 8"
    and cl: "length (LatestCrosslinks (fst ex_world)) = 1"
    by (simp_all add: ex_world_def ex_state_def ex_store_def)
  have vp: "verifyProposerSlashing (ex_slashing_same 9) False = Inr ()"
    by (simp add: verifyProposerSlashing_def ex_slashing_same_def ex_proposal_def)
  have p: "fst (ProcessProposerSlashings ex_env ex_world
          (ex_block\<lparr>Body := ex_body\<lparr>ProposerSlashings := [ex_slashing_same 9]\<rparr>\<rparr>) False)
     = Inl Panic"
    using operation_index_out_of_range_panics
      [where block = "ex_block\<lparr>Body := ex_body\<lparr>ProposerSlashings := [ex_slashing_same 9]\<rparr>\<rparr>"
         and slashing = "ex_slashing_same 9" and rest = "[]" and env = ex_env and vs = False
         and w = ex_world and r = "ValidatorRegistry (fst ex_world)"]
      vp len
    by (simp add: ex_env_def ex_slashing_same_def)
  have a: "attesterSlashableIndices ex_env ex_world (ex_attester_slashing [1, 9]) = Inl Panic"
    using operation_index_out_of_range_panics
      [where w = ex_world and i = 9 and aslashing = "ex_attester_slashing [1, 9]"
         and env = ex_env] len
    by (simp add: ex_attester_slashing_def ex_slashable_def)
  have e: "verifyExit ex_env ex_world \<lparr>exit_Epoch = 1, exit_ValidatorIndex = 9\<rparr> False = Inl Panic"
    using operation_index_out_of_range_panics
      [where env = ex_env and vs = False and w = ex_world
         and exit = "\<lparr>exit_Epoch = 1, exit_ValidatorIndex = 9\<rparr>"] len
    by simp
  have v: "verifyAttestation ex_env ex_world (ex_attestation 96 5 (replicate 32 0) []) False
      = Inl Panic"
    using operation_index_out_of_range_panics
      [where env = ex_env and vs = False and w = ex_world
         and att = "ex_attestation 96 5 (replicate 32 0) []"] cl
    by (simp add: ex_env_def ex_world_def ex_state_def ex_attestation_def ex_data_def
        bytesOf_def decoded_def)
  show ?thesis using len cl vp p a e v by simp
qed

subsection \<open>ProcessBlockRandao: the same reveal twice\<close>

lemma ToBytes32_length: "length (ToBytes32 x) = 32"
  by (simp add: ToBytes32_def)

lemma ToBytes32_id: "length x = 32 \<Longrightarrow> ToBytes32 x = x"
  by (simp add: ToBytes32_def)

lemma xorReveal_Inr:
  "xorReveal m r i = Inr m' \<Longrightarrow>
     length m' = length m \<and> (r \<noteq> [] \<longrightarrow> i + length r \<le> length m) \<and>
     (\<forall>j < length m. m' ! j =
        (if i \<le> j \<and> j < i + length r then (m ! j) XOR (r ! (j - i)) else m ! j))"
proof (induction r arbitrary: m i)
  case Nil
  then show ?case by auto
next
  case (Cons x xs)
  from Cons.prems have i: "i < length m"
    and rest: "xorReveal (m[i := (m ! i) XOR x]) xs (Suc i) = Inr m'"
    by (auto split: if_splits)
  from Cons.IH [OF rest] have len: "length m' = length m"
    and fits: "xs \<noteq> [] \<longrightarrow> Suc i + length xs \<le> length m"
    and nth: "\<forall>j < length m. m' ! j =
        (if Suc i \<le> j \<and> j < Suc i + length xs
         then ((m[i := (m ! i) XOR x]) ! j) XOR (xs ! (j - Suc i))
         else (m[i := (m ! i) XOR x]) ! j)"
    by simp_all
  have "m' ! j = (if i \<le> j \<and> j < i + length (x # xs)
                  then (m ! j) XOR ((x # xs) ! (j - i)) else m ! j)"
    if "j < length m" for j
  proof (cases "j = i")
    case True
    with nth that show ?thesis by simp
  next
    case False
    with nth that show ?thesis by (auto simp: nth_Cons' Suc_le_eq)
  qed
  with len fits i show ?case by (cases xs) auto
qed

lemma xorReveal_total:
  "r = [] \<or> i + length r \<le> length m \<Longrightarrow> \<exists>m'. xorReveal m r i = Inr m'"
proof (induction r arbitrary: m i)
  case Nil
  then show ?case by simp
next
  case (Cons x xs)
  then have "i < length m" by simp
  moreover have "\<exists>m'. xorReveal (m[i := (m ! i) XOR x]) xs (Suc i) = Inr m'"
    using Cons.prems by (intro Cons.IH) auto
  ultimately show ?case by simp
qed

lemma xorReveal_involution:
  assumes "xorReveal m r i = Inr m'"
  shows "xorReveal m' r i = Inr m"
proof -
  note p = xorReveal_Inr [OF assms]
  from p have "r = [] \<or> i + length r \<le> length m'" by auto
  from xorReveal_total [OF this] obtain m'' where m'': "xorReveal m' r i = Inr m''"
    by blast
  note q = xorReveal_Inr [OF m'']
  have "m'' = m"
  proof (rule nth_equalityI)
    show "length m'' = length m" using p q by simp
  next
    fix j assume "j < length m''"
    then have j: "j < length m" "j < length m'" using p q by simp_all
    from p j have a: "m' ! j =
        (if i \<le> j \<and> j < i + length r then (m ! j) XOR (r ! (j - i)) else m ! j)" by blast
    from q j have b: "m'' ! j =
        (if i \<le> j \<and> j < i + length r then (m' ! j) XOR (r ! (j - i)) else m' ! j)" by blast
    show "m'' ! j = m ! j"
      unfolding b a by (simp add: xor.assoc)
  qed
  with m'' show ?thesis by simp
qed

lemma RepeatHash_0: "RepeatHash env x 0 = x"
  by (simp add: RepeatHash_def)

text \<open>
  Claim C7. Let ProcessBlockRandao succeed on a block, and let the proposer
  lookup (a helper outside this file) give for the state it returns the index
  it gave before, at the same slot. Then the proposer's commitment is now the
  reveal and its \<open>randao_layers\<close> are 0, a second run with the same block
  succeeds, and the mix at index \<open>slot mod LATEST_RANDAO_MIXES_LENGTH\<close> is again
  the 32-byte form of what it was before the first run: the original mix
  itself when that was 32 bytes long, as every mix of the spec is.
\<close>

theorem ProcessBlockRandao_twice:
  assumes first: "ProcessBlockRandao env w block = Inr w1"
      and stable: "BeaconProposerIdx env w1 (Slot (fst w)) = BeaconProposerIdx env w (Slot (fst w))"
  shows "\<exists>w2 proposerIndex.
           BeaconProposerIdx env w (Slot (fst w)) = Inr proposerIndex \<and>
           RandaoCommitmentHash32 (validatorAt w1 proposerIndex) = RandaoRevealHash32 block \<and>
           RandaoLayers (validatorAt w1 proposerIndex) = 0 \<and>
           Slot (fst w1) = Slot (fst w) \<and>
           ProcessBlockRandao env w1 block = Inr w2 \<and>
           LatestRandaoMixesHash32S (fst w2) ! unat (Slot (fst w) mod LatestRandaoMixesLength env)
             = ToBytes32 (LatestRandaoMixesHash32S (fst w)
                            ! unat (Slot (fst w) mod LatestRandaoMixesLength env)) \<and>
           (length (LatestRandaoMixesHash32S (fst w)
                      ! unat (Slot (fst w) mod LatestRandaoMixesLength env)) = 32 \<longrightarrow>
              LatestRandaoMixesHash32S (fst w2) ! unat (Slot (fst w) mod LatestRandaoMixesLength env)
                = LatestRandaoMixesHash32S (fst w)
                    ! unat (Slot (fst w) mod LatestRandaoMixesLength env))"
proof -
  define st where "st = fst w"
  define h where "h = snd w"
  define r where "r = ValidatorRegistry st"
  define k where "k = unat (Slot st mod LatestRandaoMixesLength env)"
  define mixes where "mixes = LatestRandaoMixesHash32S st"
  from first obtain idx p m1 where
    idx: "BeaconProposerIdx env w (Slot st) = Inr idx"
    and p: "sliceIndex h r idx = Some p"
    and ver: "verifyBlockRandao env (objs h p) block = Inr ()"
    and n0: "LatestRandaoMixesLength env \<noteq> 0"
    and k: "k < length mixes"
    and x: "xorReveal (ToBytes32 (mixes ! k)) (RandaoRevealHash32 block) 0 = Inr m1"
    and w1: "w1 = (st\<lparr>LatestRandaoMixesHash32S := mixes[k := m1], ValidatorRegistry := r\<rparr>,
                   h\<lparr>objs := (objs h)(p := (objs h p)
                          \<lparr>RandaoCommitmentHash32 := RandaoRevealHash32 block, RandaoLayers := 0\<rparr>),
                     cells := (cells h)(sl_ptr r + unat idx := p)\<rparr>)"
    unfolding st_def h_def r_def k_def mixes_def
    by (auto simp: ProcessBlockRandao_def Let_def not_le
             split: sum.splits option.splits if_splits)
  from p have inrange: "unat idx < sl_len r" and at: "cells h (sl_ptr r + unat idx) = p"
    by (auto simp: sliceIndex_def split: if_splits)
  have slot1: "Slot (fst w1) = Slot st" by (simp add: w1)
  have idx1: "BeaconProposerIdx env w1 (Slot (fst w1)) = Inr idx"
    using stable idx by (simp add: slot1 st_def)
  have p1: "sliceIndex (snd w1) (ValidatorRegistry (fst w1)) idx = Some p"
    using inrange by (simp add: w1 sliceIndex_def)
  have obj1: "objs (snd w1) p = (objs h p)
        \<lparr>RandaoCommitmentHash32 := RandaoRevealHash32 block, RandaoLayers := 0\<rparr>"
    by (simp add: w1)
  have ver1: "verifyBlockRandao env (objs (snd w1) p) block = Inr ()"
    by (simp add: obj1 verifyBlockRandao_def Let_def RepeatHash_0)
  have len1: "length m1 = 32"
    using xorReveal_Inr [OF x] by (simp add: ToBytes32_length)
  have mix1: "LatestRandaoMixesHash32S (fst w1) ! k = m1"
    and lenmix1: "length (LatestRandaoMixesHash32S (fst w1)) = length mixes"
    using k by (simp_all add: w1)
  have x1: "xorReveal (ToBytes32 (LatestRandaoMixesHash32S (fst w1) ! k))
              (RandaoRevealHash32 block) 0 = Inr (ToBytes32 (mixes ! k))"
    using xorReveal_involution [OF x] by (simp add: mix1 ToBytes32_id len1)
  have k1: "unat (Slot (fst w1) mod LatestRandaoMixesLength env) = k"
    by (simp add: slot1 k_def)
  obtain w2 where second: "ProcessBlockRandao env w1 block = Inr w2"
    and mix2: "LatestRandaoMixesHash32S (fst w2) =
                 (LatestRandaoMixesHash32S (fst w1))[k := ToBytes32 (mixes ! k)]"
    using idx1 p1 ver1 n0 k lenmix1 x1 k1
    by (simp add: ProcessBlockRandao_def Let_def)
  have restored: "LatestRandaoMixesHash32S (fst w2) ! k = ToBytes32 (mixes ! k)"
    using k lenmix1 by (simp add: mix2)
  have proposer: "validatorAt w1 idx = (objs h p)
        \<lparr>RandaoCommitmentHash32 := RandaoRevealHash32 block, RandaoLayers := 0\<rparr>"
    using inrange by (simp add: validatorAt_def w1)
  show ?thesis
    using idx proposer slot1 second restored ToBytes32_id [of "mixes ! k"]
    unfolding st_def k_def mixes_def
    by (intro exI [of _ w2] exI [of _ idx]) simp
qed

text \<open>In the example the proposer is validator 0, with one layer over the
  reveal; the mix at index \<open>100 mod 4 = 0\<close> goes from 32 bytes 1 to 32 bytes 6
  and returns.\<close>

theorem ProcessBlockRandao_twice_witness:
  "\<not> isl (ProcessBlockRandao ex_env ex_world ex_block) \<and>
   length (LatestRandaoMixesHash32S (fst ex_world) ! 0) = 32 \<and>
   unat (Slot (fst ex_world) mod LatestRandaoMixesLength ex_env) = 0 \<and>
   LatestRandaoMixesHash32S (fst (projr (ProcessBlockRandao ex_env ex_world ex_block))) ! 0
     = replicate 32 6 \<and>
   \<not> isl (ProcessBlockRandao ex_env (projr (ProcessBlockRandao ex_env ex_world ex_block)) ex_block) \<and>
   LatestRandaoMixesHash32S (fst (projr (ProcessBlockRandao ex_env
       (projr (ProcessBlockRandao ex_env ex_world ex_block)) ex_block))) ! 0
     = LatestRandaoMixesHash32S (fst ex_world) ! 0"
proof -
  define w1 where "w1 = projr (ProcessBlockRandao ex_env ex_world ex_block)"
  have ok: "\<not> isl (ProcessBlockRandao ex_env ex_world ex_block)"
    by code_simp
  then have first: "ProcessBlockRandao ex_env ex_world ex_block = Inr w1"
    unfolding w1_def by (cases "ProcessBlockRandao ex_env ex_world ex_block") simp_all
  have stable: "BeaconProposerIdx ex_env w1 (Slot (fst ex_world))
      = BeaconProposerIdx ex_env ex_world (Slot (fst ex_world))"
    by (simp add: ex_env_def)
  have len: "length (LatestRandaoMixesHash32S (fst ex_world) ! 0) = 32"
    by (simp add: ex_world_def ex_state_def)
  have k: "unat (Slot (fst ex_world) mod LatestRandaoMixesLength ex_env) = 0"
    by (simp add: ex_world_def ex_state_def ex_env_def)
  have mix1: "LatestRandaoMixesHash32S (fst (projr (ProcessBlockRandao ex_env ex_world ex_block))) ! 0
     = replicate 32 6"
    by code_simp
  from ProcessBlockRandao_twice [OF first stable] obtain w2 where
    second: "ProcessBlockRandao ex_env w1 ex_block = Inr w2"
    and restored: "LatestRandaoMixesHash32S (fst w2) ! 0 = LatestRandaoMixesHash32S (fst ex_world) ! 0"
    unfolding k using len by auto
  show ?thesis
    using ok len k mix1 second restored unfolding w1_def [symmetric] by simp
qed

subsection \<open>Slashings: a slashed validator is not penalized again\<close>

lemma proposerSlashingsLoop_calls:
  assumes keeps: "\<forall>w j w'. PenalizeValidator env w j = Inr w' \<and>
                    alreadySlashed env r w i \<longrightarrow> alreadySlashed env r w' i"
  shows "alreadySlashed env r w i \<Longrightarrow> i \<notin> set calls \<Longrightarrow>
           i \<notin> set (snd (proposerSlashingsLoop env r vs idx slashings w calls))"
proof (induction slashings arbitrary: w calls idx)
  case Nil
  then show ?case by simp
next
  case (Cons slashing rest)
  show ?case
  proof (cases "verifyProposerSlashing slashing vs")
    case (Inl e)
    with Cons.prems show ?thesis by simp
  next
    case (Inr u)
    show ?thesis
    proof (cases "sliceIndex (snd w) r (ProposerIndex slashing)")
      case None
      with Inr Cons.prems show ?thesis by simp
    next
      case (Some proposer)
      show ?thesis
      proof (cases "PenalizedEpoch (objs (snd w) proposer) > CurrentEpoch env w")
        case False
        with Inr Some Cons.IH [OF Cons.prems] show ?thesis by simp
      next
        case True
        with Some Cons.prems(1) have other: "ProposerIndex slashing \<noteq> i"
          by (auto simp: alreadySlashed_def)
        show ?thesis
        proof (cases "PenalizeValidator env w (ProposerIndex slashing)")
          case (Inl e)
          with Inr Some True other Cons.prems show ?thesis by simp
        next
          case (Inr w')
          from keeps Inr Cons.prems(1) have "alreadySlashed env r w' i" by blast
          moreover have "i \<notin> set (calls @ [ProposerIndex slashing])"
            using other Cons.prems(2) by simp
          ultimately have "i \<notin> set (snd (proposerSlashingsLoop env r vs (Suc idx) rest w'
                                  (calls @ [ProposerIndex slashing])))"
            by (rule Cons.IH)
          with \<open>verifyProposerSlashing slashing vs = Inr u\<close> Some True Inr show ?thesis by simp
        qed
      qed
    qed
  qed
qed

lemma slashableIndicesInner_slashed:
  "slashableIndicesInner env w idx1 indices2 acc = Inr res \<Longrightarrow>
     alreadySlashed env (ValidatorRegistry (fst w)) w i \<Longrightarrow> i \<notin> set acc \<Longrightarrow> i \<notin> set res"
proof (induction indices2 arbitrary: acc)
  case Nil
  then show ?case by simp
next
  case (Cons idx2 rest)
  show ?case
  proof (cases "idx1 = idx2")
    case False
    with Cons.prems(1) have "slashableIndicesInner env w idx1 rest acc = Inr res" by simp
    from Cons.IH [OF this Cons.prems(2,3)] show ?thesis .
  next
    case True
    with Cons.prems(1) obtain validator where
      v: "sliceIndex (snd w) (ValidatorRegistry (fst w)) idx1 = Some validator"
      by (auto split: option.splits)
    show ?thesis
    proof (cases "PenalizedEpoch (objs (snd w) validator) > CurrentEpoch env w")
      case False
      with True v Cons.prems(1) have "slashableIndicesInner env w idx1 rest acc = Inr res"
        by simp
      from Cons.IH [OF this Cons.prems(2,3)] show ?thesis .
    next
      case slashable: True
      with v Cons.prems(2) have "idx1 \<noteq> i"
        by (auto simp: alreadySlashed_def)
      with Cons.prems(3) have "i \<notin> set (acc @ [idx1])" by simp
      moreover from True v slashable Cons.prems(1)
      have "slashableIndicesInner env w idx1 rest (acc @ [idx1]) = Inr res" by simp
      ultimately show ?thesis using Cons.IH Cons.prems(2) by blast
    qed
  qed
qed

lemma slashableIndicesOuter_slashed:
  "slashableIndicesOuter env w indices1 indices2 acc = Inr res \<Longrightarrow>
     alreadySlashed env (ValidatorRegistry (fst w)) w i \<Longrightarrow> i \<notin> set acc \<Longrightarrow> i \<notin> set res"
proof (induction indices1 arbitrary: acc)
  case Nil
  then show ?case by simp
next
  case (Cons idx1 rest)
  from Cons.prems(1) obtain acc' where
    inner: "slashableIndicesInner env w idx1 indices2 acc = Inr acc'"
    and outer: "slashableIndicesOuter env w rest indices2 acc' = Inr res"
    by (auto split: sum.splits)
  from slashableIndicesInner_slashed [OF inner Cons.prems(2,3)] have "i \<notin> set acc'" .
  from Cons.IH [OF outer Cons.prems(2) this] show ?case .
qed

lemma attesterSlashableIndices_slashed:
  "attesterSlashableIndices env w slashing = Inr res \<Longrightarrow>
     alreadySlashed env (ValidatorRegistry (fst w)) w i \<Longrightarrow> i \<notin> set res"
  using slashableIndicesOuter_slashed [of env w _ _ "[]" res i]
  by (auto simp: attesterSlashableIndices_def Let_def split: sum.splits if_splits)

lemma penalizeLoop_calls:
  assumes keeps: "\<forall>w j w'. PenalizeValidator env w j = Inr w' \<and>
                    alreadySlashed env (ValidatorRegistry (fst w)) w i \<longrightarrow>
                    alreadySlashed env (ValidatorRegistry (fst w')) w' i"
  shows "alreadySlashed env (ValidatorRegistry (fst w)) w i \<Longrightarrow> i \<notin> set indices \<Longrightarrow>
           i \<notin> set calls \<Longrightarrow>
           i \<notin> set (snd (penalizeLoop env indices w calls)) \<and>
           (\<forall>w'. fst (penalizeLoop env indices w calls) = Inr w' \<longrightarrow>
                 alreadySlashed env (ValidatorRegistry (fst w')) w' i)"
proof (induction indices arbitrary: w calls)
  case Nil
  then show ?case by simp
next
  case (Cons validatorIndex rest)
  show ?case
  proof (cases "PenalizeValidator env w validatorIndex")
    case (Inl e)
    with Cons.prems show ?thesis by simp
  next
    case (Inr w')
    from keeps Inr Cons.prems(1)
    have "alreadySlashed env (ValidatorRegistry (fst w')) w' i" by blast
    moreover have "i \<notin> set rest" "i \<notin> set (calls @ [validatorIndex])"
      using Cons.prems by simp_all
    ultimately show ?thesis using Cons.IH [of w' "calls @ [validatorIndex]"] Inr by simp
  qed
qed

lemma attesterSlashingsLoop_calls:
  assumes keeps: "\<forall>w j w'. PenalizeValidator env w j = Inr w' \<and>
                    alreadySlashed env (ValidatorRegistry (fst w)) w i \<longrightarrow>
                    alreadySlashed env (ValidatorRegistry (fst w')) w' i"
  shows "alreadySlashed env (ValidatorRegistry (fst w)) w i \<Longrightarrow> i \<notin> set calls \<Longrightarrow>
           i \<notin> set (snd (attesterSlashingsLoop env vs idx slashings w calls))"
proof (induction slashings arbitrary: w calls idx)
  case Nil
  then show ?case by simp
next
  case (Cons slashing rest)
  show ?case
  proof (cases "verifyAttesterSlashing env slashing vs")
    case (Inl e)
    with Cons.prems show ?thesis by simp
  next
    case (Inr u)
    show ?thesis
    proof (cases "attesterSlashableIndices env w slashing")
      case (Inl e)
      with Inr Cons.prems show ?thesis by simp
    next
      case indices: (Inr slashableIndices)
      from attesterSlashableIndices_slashed [OF indices Cons.prems(1)]
      have "i \<notin> set slashableIndices" .
      from penalizeLoop_calls [OF keeps Cons.prems(1) this Cons.prems(2)]
      have calls': "i \<notin> set (snd (penalizeLoop env slashableIndices w calls))"
        and w': "\<And>w'. fst (penalizeLoop env slashableIndices w calls) = Inr w' \<Longrightarrow>
                   alreadySlashed env (ValidatorRegistry (fst w')) w' i"
        by blast+
      show ?thesis
      proof (cases "penalizeLoop env slashableIndices w calls")
        case (Pair res calls2)
        show ?thesis
        proof (cases res)
          case (Inl e)
          with Pair Inr indices calls' show ?thesis by simp
        next
          case loop: (Inr w2)
          from w' [of w2] Pair loop
          have "alreadySlashed env (ValidatorRegistry (fst w2)) w2 i" by simp
          moreover from calls' Pair have "i \<notin> set calls2" by simp
          ultimately have "i \<notin> set (snd (attesterSlashingsLoop env vs (Suc idx) rest w2 calls2))"
            by (rule Cons.IH)
          with Pair Inr indices loop show ?thesis by simp
        qed
      qed
    qed
  qed
qed

lemma proposerSlashingsLoop_keeps:
  assumes keeps: "\<forall>w j w'. PenalizeValidator env w j = Inr w' \<and>
                    alreadySlashed env (ValidatorRegistry (fst w)) w i \<longrightarrow>
                    alreadySlashed env (ValidatorRegistry (fst w')) w' i"
  shows "alreadySlashed env (ValidatorRegistry (fst w)) w i \<Longrightarrow>
           fst (proposerSlashingsLoop env r vs idx slashings w calls) = Inr w1 \<Longrightarrow>
           alreadySlashed env (ValidatorRegistry (fst w1)) w1 i"
proof (induction slashings arbitrary: w calls idx)
  case Nil
  then show ?case by simp
next
  case (Cons slashing rest)
  from Cons.prems(2) obtain proposer where
    some: "sliceIndex (snd w) r (ProposerIndex slashing) = Some proposer"
    and verified: "verifyProposerSlashing slashing vs = Inr ()"
    by (auto split: sum.splits option.splits)
  show ?case
  proof (cases "PenalizedEpoch (objs (snd w) proposer) > CurrentEpoch env w")
    case False
    with some verified Cons.prems(2)
    have "fst (proposerSlashingsLoop env r vs (Suc idx) rest w calls) = Inr w1" by simp
    from Cons.IH [OF Cons.prems(1) this] show ?thesis .
  next
    case True
    with some verified Cons.prems(2) obtain w' where
      penalized: "PenalizeValidator env w (ProposerIndex slashing) = Inr w'"
      and rest: "fst (proposerSlashingsLoop env r vs (Suc idx) rest w'
                        (calls @ [ProposerIndex slashing])) = Inr w1"
      by (auto split: sum.splits)
    from keeps penalized Cons.prems(1)
    have "alreadySlashed env (ValidatorRegistry (fst w')) w' i" by blast
    from Cons.IH [OF this rest] show ?thesis .
  qed
qed

text \<open>
  Claim C9. Let validator \<open>i\<close> be already slashed in the state a block is
  processed on, and let \<^verbatim>\<open>PenalizeValidator\<close> (a helper outside this file) keep a
  slashed validator slashed. Then \<open>i\<close> is not among the indices on which
  ProcessProposerSlashings calls \<^verbatim>\<open>PenalizeValidator\<close>, nor among those of
  ProcessAttesterSlashings (run on the same state, or on the state
  ProcessProposerSlashings returned), whether the block goes through or fails. The two
  processors read the registry differently (the first through the slice header
  it copied before its loop, the second through the state of the moment), and
  so does the condition on the helper. A verified slashing of a slashed
  proposer is passed over: the loop goes on with the same state and no call.
\<close>

theorem slashed_validator_not_penalized_again:
  "(alreadySlashed env (ValidatorRegistry (fst w)) w i \<and>
    (\<forall>w1 j w2. PenalizeValidator env w1 j = Inr w2 \<and>
              alreadySlashed env (ValidatorRegistry (fst w)) w1 i
                \<longrightarrow> alreadySlashed env (ValidatorRegistry (fst w)) w2 i)
      \<longrightarrow> i \<notin> set (snd (ProcessProposerSlashings env w block vs))) \<and>
   (alreadySlashed env (ValidatorRegistry (fst w)) w i \<and>
    (\<forall>w1 j w2. PenalizeValidator env w1 j = Inr w2 \<and>
              alreadySlashed env (ValidatorRegistry (fst w1)) w1 i
                \<longrightarrow> alreadySlashed env (ValidatorRegistry (fst w2)) w2 i)
      \<longrightarrow> i \<notin> set (snd (ProcessAttesterSlashings env w block vs))) \<and>
   (alreadySlashed env (ValidatorRegistry (fst w)) w i \<and>
    (\<forall>w1 j w2. PenalizeValidator env w1 j = Inr w2 \<and>
              alreadySlashed env (ValidatorRegistry (fst w1)) w1 i
                \<longrightarrow> alreadySlashed env (ValidatorRegistry (fst w2)) w2 i) \<and>
    fst (ProcessProposerSlashings env w block vs) = Inr w'
      \<longrightarrow> i \<notin> set (snd (ProcessAttesterSlashings env w' block vs))) \<and>
   (verifyProposerSlashing slashing vs = Inr () \<and>
    alreadySlashed env r w (ProposerIndex slashing)
      \<longrightarrow> proposerSlashingsLoop env r vs idx (slashing # rest) w calls
            = proposerSlashingsLoop env r vs (Suc idx) rest w calls)"
proof -
  have p: "i \<notin> set (snd (ProcessProposerSlashings env w block vs))"
    if "alreadySlashed env (ValidatorRegistry (fst w)) w i"
       "\<forall>w1 j w2. PenalizeValidator env w1 j = Inr w2 \<and>
              alreadySlashed env (ValidatorRegistry (fst w)) w1 i
                \<longrightarrow> alreadySlashed env (ValidatorRegistry (fst w)) w2 i"
    using proposerSlashingsLoop_calls [of env "ValidatorRegistry (fst w)" i w "[]" vs 0
        "ProposerSlashings (Body block)"] that
    by (auto simp: ProcessProposerSlashings_def Let_def)
  have a: "i \<notin> set (snd (ProcessAttesterSlashings env w0 block vs))"
    if "alreadySlashed env (ValidatorRegistry (fst w0)) w0 i"
       "\<forall>w1 j w2. PenalizeValidator env w1 j = Inr w2 \<and>
              alreadySlashed env (ValidatorRegistry (fst w1)) w1 i
                \<longrightarrow> alreadySlashed env (ValidatorRegistry (fst w2)) w2 i"
    for w0
    using attesterSlashingsLoop_calls [of env i w0 "[]" vs 0 "AttesterSlashings (Body block)"] that
    by (auto simp: ProcessAttesterSlashings_def Let_def)
  have b: "i \<notin> set (snd (ProcessAttesterSlashings env w' block vs))"
    if slashed: "alreadySlashed env (ValidatorRegistry (fst w)) w i"
      and keeps: "\<forall>w1 j w2. PenalizeValidator env w1 j = Inr w2 \<and>
              alreadySlashed env (ValidatorRegistry (fst w1)) w1 i
                \<longrightarrow> alreadySlashed env (ValidatorRegistry (fst w2)) w2 i"
      and through: "fst (ProcessProposerSlashings env w block vs) = Inr w'"
  proof -
    from through have "fst (proposerSlashingsLoop env (ValidatorRegistry (fst w)) vs 0
                              (ProposerSlashings (Body block)) w []) = Inr w'"
      by (auto simp: ProcessProposerSlashings_def Let_def split: if_splits)
    from proposerSlashingsLoop_keeps [OF keeps slashed this]
    have "alreadySlashed env (ValidatorRegistry (fst w')) w' i" .
    from a [OF this keeps] show ?thesis .
  qed
  have s: "proposerSlashingsLoop env r vs idx (slashing # rest) w calls
            = proposerSlashingsLoop env r vs (Suc idx) rest w calls"
    if "verifyProposerSlashing slashing vs = Inr ()"
       "alreadySlashed env r w (ProposerIndex slashing)"
    using that by (auto simp: alreadySlashed_def split: option.splits)
  show ?thesis using p a [of w] b s by blast
qed

text \<open>In the example validator 1 is slashed; the block slashes proposers 1 and
  7 and attesters 1 and 2: the calls are on 7 and on 2. So it is for the
  attester slashing whose two data differ only in a nil and an empty slice:
  \<^verbatim>\<open>reflect.DeepEqual\<close> tells them apart, the slashing is verified and
  validator 2 penalized.\<close>

lemma ex_PenalizeValidator_keeps_slashed:
  "ex_PenalizeValidator w j = Inr w' \<Longrightarrow>
     ValidatorRegistry (fst w') = ValidatorRegistry (fst w) \<and>
     (alreadySlashed ex_env r w i \<longrightarrow> alreadySlashed ex_env r w' i)"
  by (auto simp: ex_PenalizeValidator_def alreadySlashed_def sliceIndex_def ex_env_def
           split: option.splits if_splits)

theorem slashed_validator_not_penalized_again_witness:
  "alreadySlashed ex_env (ValidatorRegistry (fst ex_world)) ex_world 1 \<and>
   snd (ProcessProposerSlashings ex_env ex_world ex_block False) = [7] \<and>
   1 \<notin> set (snd (ProcessProposerSlashings ex_env ex_world ex_block False)) \<and>
   snd (ProcessAttesterSlashings ex_env ex_world ex_block False) = [2] \<and>
   1 \<notin> set (snd (ProcessAttesterSlashings ex_env ex_world ex_block False)) \<and>
   \<not> isl (fst (ProcessProposerSlashings ex_env ex_world ex_block False)) \<and>
   1 \<notin> set (snd (ProcessAttesterSlashings ex_env
                    (projr (fst (ProcessProposerSlashings ex_env ex_world ex_block False)))
                    ex_block False)) \<and>
   sa_Data (SlashableAttestation_1 ex_attester_slashing_nil)
     \<noteq> sa_Data (SlashableAttestation_2 ex_attester_slashing_nil) \<and>
   verifyAttesterSlashing ex_env ex_attester_slashing_nil False = Inr () \<and>
   snd (ProcessAttesterSlashings ex_env ex_world
          (ex_block\<lparr>Body := ex_body\<lparr>AttesterSlashings := [ex_attester_slashing_nil]\<rparr>\<rparr>) False)
     = [2] \<and>
   1 \<notin> set (snd (ProcessAttesterSlashings ex_env ex_world
          (ex_block\<lparr>Body := ex_body\<lparr>AttesterSlashings := [ex_attester_slashing_nil]\<rparr>\<rparr>)
          False)) \<and>
   verifyProposerSlashing (ex_slashing_same 1) False = Inr () \<and>
   proposerSlashingsLoop ex_env (ValidatorRegistry ex_state) False 0 [ex_slashing_same 1]
       ex_world []
     = (Inr ex_world, [])"
proof -
  have slashed: "alreadySlashed ex_env (ValidatorRegistry (fst ex_world)) ex_world 1"
    by (simp add: alreadySlashed_def sliceIndex_def ex_defs)
  have keeps: "PenalizeValidator ex_env w1 j = Inr w2 \<and> alreadySlashed ex_env r w1 1
                 \<longrightarrow> alreadySlashed ex_env r w2 1 \<and>
                     ValidatorRegistry (fst w2) = ValidatorRegistry (fst w1)" for w1 j w2 r
    using ex_PenalizeValidator_keeps_slashed [of w1 j w2 r 1] by (simp add: ex_env_def)
  have keeps1: "\<forall>w1 j w2. PenalizeValidator ex_env w1 j = Inr w2 \<and>
              alreadySlashed ex_env (ValidatorRegistry (fst ex_world)) w1 1
                \<longrightarrow> alreadySlashed ex_env (ValidatorRegistry (fst ex_world)) w2 1"
    using keeps by blast
  have keeps2: "\<forall>w1 j w2. PenalizeValidator ex_env w1 j = Inr w2 \<and>
              alreadySlashed ex_env (ValidatorRegistry (fst w1)) w1 1
                \<longrightarrow> alreadySlashed ex_env (ValidatorRegistry (fst w2)) w2 1"
    using keeps by metis
  have pcalls: "snd (ProcessProposerSlashings ex_env ex_world ex_block False) = [7]"
    by code_simp
  have acalls: "snd (ProcessAttesterSlashings ex_env ex_world ex_block False) = [2]"
    by code_simp
  have v: "verifyProposerSlashing (ex_slashing_same 1) False = Inr ()"
    by (simp add: verifyProposerSlashing_def ex_slashing_same_def ex_proposal_def)
  have slashed0: "alreadySlashed ex_env (ValidatorRegistry ex_state) ex_world
                    (ProposerIndex (ex_slashing_same 1))"
    using slashed by (simp add: ex_world_def ex_state_def ex_slashing_same_def)
  have through: "\<not> isl (fst (ProcessProposerSlashings ex_env ex_world ex_block False))"
    by code_simp
  then have through': "fst (ProcessProposerSlashings ex_env ex_world ex_block False)
      = Inr (projr (fst (ProcessProposerSlashings ex_env ex_world ex_block False)))"
    by (cases "fst (ProcessProposerSlashings ex_env ex_world ex_block False)") simp_all
  note t = slashed_validator_not_penalized_again
      [where env = ex_env and w = ex_world and i = 1 and block = ex_block and vs = False
         and slashing = "ex_slashing_same 1" and r = "ValidatorRegistry ex_state"
         and idx = 0 and rest = "[]"
         and calls = "[]"
         and w' = "projr (fst (ProcessProposerSlashings ex_env ex_world ex_block False))"]
  from t slashed keeps2 through'
  have b: "1 \<notin> set (snd (ProcessAttesterSlashings ex_env
                    (projr (fst (ProcessProposerSlashings ex_env ex_world ex_block False)))
                    ex_block False))"
    by blast
  from t slashed keeps1 have p: "1 \<notin> set (snd (ProcessProposerSlashings ex_env ex_world ex_block False))"
    by blast
  from t slashed keeps2 have a: "1 \<notin> set (snd (ProcessAttesterSlashings ex_env ex_world ex_block False))"
    by blast
  have nil_data: "sa_Data (SlashableAttestation_1 ex_attester_slashing_nil)
     \<noteq> sa_Data (SlashableAttestation_2 ex_attester_slashing_nil)"
    by (simp add: ex_attester_slashing_nil_def ex_slashable_def ex_data_def decoded_def)
  have nil_verified: "verifyAttesterSlashing ex_env ex_attester_slashing_nil False = Inr ()"
    by code_simp
  have nil_calls: "snd (ProcessAttesterSlashings ex_env ex_world
          (ex_block\<lparr>Body := ex_body\<lparr>AttesterSlashings := [ex_attester_slashing_nil]\<rparr>\<rparr>) False)
     = [2]"
    by code_simp
  from slashed_validator_not_penalized_again
      [where env = ex_env and w = ex_world and i = 1 and vs = False
         and block = "ex_block\<lparr>Body := ex_body\<lparr>AttesterSlashings := [ex_attester_slashing_nil]\<rparr>\<rparr>"]
    slashed keeps2
  have nil_a: "1 \<notin> set (snd (ProcessAttesterSlashings ex_env ex_world
          (ex_block\<lparr>Body := ex_body\<lparr>AttesterSlashings := [ex_attester_slashing_nil]\<rparr>\<rparr>)
          False))"
    by blast
  from t v slashed0 have s: "proposerSlashingsLoop ex_env (ValidatorRegistry ex_state) False 0 [ex_slashing_same 1]
       ex_world []
     = (Inr ex_world, [])"
    by simp
  show ?thesis
    using slashed pcalls p acalls a through b nil_data nil_verified nil_calls nil_a v s
    by blast
qed

subsection \<open>ProcessValidatorExits: the result of the calls\<close>

lemma exitsLoop_Inr:
  "exitsLoop env vs idx exits w = Inr w' \<Longrightarrow> w' = spec_exits_result env w exits"
proof (induction exits arbitrary: w idx)
  case Nil
  then show ?case by (simp add: spec_exits_result_def)
next
  case (Cons exit rest)
  from Cons.prems have
    "exitsLoop env vs (Suc idx) rest (InitiateValidatorExit env w (exit_ValidatorIndex exit)) = Inr w'"
    by (auto split: sum.splits)
  from Cons.IH [OF this] show ?case by (simp add: spec_exits_result_def)
qed

lemma spec_exits_result_registry:
  assumes "\<forall>w0 i. ValidatorRegistry (fst (InitiateValidatorExit env w0 i)) = ValidatorRegistry (fst w0)"
  shows "ValidatorRegistry (fst (spec_exits_result env w exits)) = ValidatorRegistry (fst w)"
  unfolding spec_exits_result_def
  by (induction exits arbitrary: w) (simp_all add: assms [rule_format])

lemma ProcessValidatorExits_written_back:
  assumes "ProcessValidatorExits env w block vs = Inr w'"
  shows "w' = ((fst (spec_exits_result env w (Exits (Body block))))
                  \<lparr>ValidatorRegistry := ValidatorRegistry (fst w)\<rparr>,
               snd (spec_exits_result env w (Exits (Body block))))"
proof -
  from assms obtain wl where loop: "exitsLoop env vs 0 (Exits (Body block)) w = Inr wl"
    and w': "w' = ((fst wl)\<lparr>ValidatorRegistry := ValidatorRegistry (fst w)\<rparr>, snd wl)"
    by (auto simp: ProcessValidatorExits_def Let_def split: if_splits sum.splits)
  from exitsLoop_Inr [OF loop] w' show ?thesis by simp
qed

text \<open>
  Claim C2. The spec calls \<open>initiate_validator_exit\<close> a mutation of the
  validator registry: it changes the validators of the registry it is given
  and leaves the state's registry slice (pointer, length, capacity) as it is.
  For such a helper, when ProcessValidatorExits succeeds, the state it returns
  is the result of calling \<open>initiate_validator_exit\<close> once per exit, in the
  order of the list, and so holds every change these calls made to the
  registry. (Whatever the helper does, the returned state is that result with
  \<^verbatim>\<open>ValidatorRegistry\<close> set to the slice header the state had before the
  loop, as the lemma above says.)
\<close>

theorem ProcessValidatorExits_result:
  "ProcessValidatorExits env w block vs = Inr w' \<and>
   (\<forall>w0 i. ValidatorRegistry (fst (InitiateValidatorExit env w0 i))
              = ValidatorRegistry (fst w0))
     \<longrightarrow> w' = spec_exits_result env w (Exits (Body block))"
proof
  assume a: "ProcessValidatorExits env w block vs = Inr w' \<and>
   (\<forall>w0 i. ValidatorRegistry (fst (InitiateValidatorExit env w0 i))
              = ValidatorRegistry (fst w0))"
  then have same: "ValidatorRegistry (fst (spec_exits_result env w (Exits (Body block))))
      = ValidatorRegistry (fst w)"
    using spec_exits_result_registry [of env w "Exits (Body block)"] by blast
  from a have "w' = ((fst (spec_exits_result env w (Exits (Body block))))
                  \<lparr>ValidatorRegistry := ValidatorRegistry (fst w)\<rparr>,
               snd (spec_exits_result env w (Exits (Body block))))"
    using ProcessValidatorExits_written_back by blast
  with same show "w' = spec_exits_result env w (Exits (Body block))"
    by (simp add: prod_eq_iff)
qed

text \<open>With the helper of the example, which changes the validator in place,
  the exits of the validators 3 and 5 are in the returned state.\<close>

theorem ProcessValidatorExits_result_witness:
  "\<not> isl (ProcessValidatorExits ex_env ex_world ex_block False) \<and>
   ProcessValidatorExits ex_env ex_world ex_block False
     = Inr (spec_exits_result ex_env ex_world (Exits (Body ex_block))) \<and>
   ExitEpoch (validatorAt ex_world 3) = 18446744073709551615 \<and>
   ExitEpoch (validatorAt (spec_exits_result ex_env ex_world (Exits (Body ex_block))) 3) = 6 \<and>
   ExitEpoch (validatorAt (spec_exits_result ex_env ex_world (Exits (Body ex_block))) 5) = 6 \<and>
   ExitEpoch (validatorAt (projr (ProcessValidatorExits ex_env ex_world ex_block False)) 5) = 6"
proof -
  have ok: "\<not> isl (ProcessValidatorExits ex_env ex_world ex_block False)"
    by code_simp
  then have r: "ProcessValidatorExits ex_env ex_world ex_block False
      = Inr (projr (ProcessValidatorExits ex_env ex_world ex_block False))"
    by (cases "ProcessValidatorExits ex_env ex_world ex_block False") simp_all
  have inplace: "\<forall>w0 i. ValidatorRegistry (fst (InitiateValidatorExit ex_env w0 i))
                = ValidatorRegistry (fst w0)"
    by (simp add: ex_env_def ex_InitiateValidatorExit_def Let_def)
  from ProcessValidatorExits_result [of ex_env ex_world ex_block False
      "projr (ProcessValidatorExits ex_env ex_world ex_block False)"] r inplace
  have "projr (ProcessValidatorExits ex_env ex_world ex_block False)
      = spec_exits_result ex_env ex_world (Exits (Body ex_block))"
    by blast
  with r have eq: "ProcessValidatorExits ex_env ex_world ex_block False
     = Inr (spec_exits_result ex_env ex_world (Exits (Body ex_block)))"
    by simp
  have before: "ExitEpoch (validatorAt ex_world 3) = 18446744073709551615"
    by code_simp
  have after: "ExitEpoch (validatorAt (spec_exits_result ex_env ex_world (Exits (Body ex_block))) 3) = 6"
    "ExitEpoch (validatorAt (spec_exits_result ex_env ex_world (Exits (Body ex_block))) 5) = 6"
    by code_simp+
  show ?thesis using ok eq before after by simp
qed

end
